theory Spec2Isabelle
  imports Complex_Main "HOL-Library.Finite_Map" "HOL-Library.Multiset"
begin

section \<open>Sortr: vector store and note sorter\<close>

text \<open>
  A shallow embedding of \<^verbatim>\<open>src/vector-store.ts\<close> (classes \<^verbatim>\<open>VectorStore\<close> and
  \<^verbatim>\<open>NoteSorter\<close>), of \<^verbatim>\<open>MemoryManager.getLastSort\<close>/\<^verbatim>\<open>recordSort\<close> from
  \<^verbatim>\<open>src/memory.ts\<close> and of the interfaces of the type declarations.

  Conventions. Embedding components and similarities are real numbers: the rounding of
  IEEE doubles is not modelled. Numbers that can be \<^verbatim>\<open>NaN\<close> or infinite in the
  source (a parsed confidence, the configured threshold) have the type \<open>jsnum\<close>.
  A thrown exception or a rejected promise is the \<open>Inl\<close> branch of a sum. Strings are
  lists of 8-bit code units. Record fields carry a short prefix because records share one
  name space.
\<close>

subsection \<open>Errors and the file system\<close>

text \<open>
  The file system is a finite map from paths to nodes. Paths are flat keys: the tree
  structure and permissions are not modelled, and of the I/O faults only those of a write.
\<close>

datatype error =
    LengthMismatch      \<comment> \<open>\<^verbatim>\<open>new Error('Vectors must have same length')\<close>\<close>
  | EmbedNotInitialized \<comment> \<open>\<^verbatim>\<open>new Error("Embedding function not initialized")\<close>\<close>
  | ENOENT              \<comment> \<open>a path that does not exist\<close>
  | EISDIR              \<comment> \<open>a file operation on a directory\<close>
  | ENOTDIR             \<comment> \<open>a directory renamed onto a file\<close>
  | EEXIST              \<comment> \<open>a directory created where a file is\<close>
  | EFBIG               \<comment> \<open>a write beyond the file size limit\<close>
  | ENOSPC              \<comment> \<open>a write on a full device\<close>
  | SyntaxError         \<comment> \<open>\<^verbatim>\<open>JSON.parse\<close> on malformed text\<close>

datatype node = File string | Dir

type_synonym filesystem = "(string, node) fmap"

definition existsSync :: "filesystem \<Rightarrow> string \<Rightarrow> bool" where
  "existsSync fs p = (fmlookup fs p \<noteq> None)"

definition readFile :: "filesystem \<Rightarrow> string \<Rightarrow> error + string" where
  "readFile fs p =
     (case fmlookup fs p of
        None \<Rightarrow> Inl ENOENT
      | Some Dir \<Rightarrow> Inl EISDIR
      | Some (File c) \<Rightarrow> Inr c)"

text \<open>
  \<^verbatim>\<open>writeFile(path, data)\<close> opens the path truncating it and then writes the data.
  A directory at the path is refused before anything is written. Otherwise the write can
  complete, the process can die after \<open>n\<close> code units reached the file, or the write can
  fail with an error after \<open>n\<close> code units reached the file (a size limit, a full
  device). The result is the error that \<open>writeFile\<close> rejects with, if any, and the file
  system found afterwards: a write that stops midway has already replaced the old content
  by what was written so far.
\<close>

datatype write_fault = Completes | Dies nat | Fails error nat

definition writeFile ::
  "write_fault \<Rightarrow> filesystem \<Rightarrow> string \<Rightarrow> string \<Rightarrow> error option \<times> filesystem" where
  "writeFile fault fs p content =
     (case fmlookup fs p of
        Some Dir \<Rightarrow> (Some EISDIR, fs)
      | _ \<Rightarrow>
          (case fault of
             Completes \<Rightarrow> (None, fmupd p (File content) fs)
           | Dies n \<Rightarrow> (None, fmupd p (File (take n content)) fs)
           | Fails e n \<Rightarrow> (Some e, fmupd p (File (take n content)) fs)))"

text \<open>\<^verbatim>\<open>mkdirSync(p, {recursive: true})\<close> and \<^verbatim>\<open>renameSync(oldPath, newPath)\<close>.\<close>

definition mkdirSync :: "filesystem \<Rightarrow> string \<Rightarrow> error + filesystem" where
  "mkdirSync fs p =
     (if p = [] then Inl ENOENT
      else case fmlookup fs p of
             Some (File c) \<Rightarrow> Inl EEXIST
           | _ \<Rightarrow> Inr (fmupd p Dir fs))"

definition renameSync :: "filesystem \<Rightarrow> string \<Rightarrow> string \<Rightarrow> error + filesystem" where
  "renameSync fs oldPath newPath =
     (case fmlookup fs oldPath of
        None \<Rightarrow> Inl ENOENT
      | Some n \<Rightarrow>
          (case (n, fmlookup fs newPath) of
             (File c, Some Dir) \<Rightarrow> Inl EISDIR
           | (Dir, Some (File c)) \<Rightarrow> Inl ENOTDIR
           | _ \<Rightarrow> Inr (fmupd newPath n (fmdrop oldPath fs))))"

subsection \<open>Vector entries\<close>

record metadata =
  md_filePath :: string
  md_folderPath :: string
  md_createdAt :: string

record vector_entry =
  ve_id :: string
  ve_embedding :: "real list"
  ve_metadata :: metadata

record similar_note =
  sn_id :: string
  sn_filePath :: string
  sn_folderPath :: string
  sn_similarity :: real
  sn_document :: string

record store =
  vectors :: "vector_entry list"
  storePath :: string

definition new_store :: "string \<Rightarrow> store" where
  "new_store p = \<lparr>vectors = [], storePath = p\<rparr>"

subsection \<open>\<^verbatim>\<open>VectorStore.load\<close> and \<^verbatim>\<open>VectorStore.save\<close>\<close>

text \<open>
  \<^verbatim>\<open>JSON.parse\<close> and \<^verbatim>\<open>JSON.stringify\<close> are parameters. The source assigns the
  parsed value to a field of type \<^verbatim>\<open>VectorEntry[]\<close>; the parameter \<open>parse\<close> yields
  such a list or throws.
\<close>

definition load_try :: "(string \<Rightarrow> error + vector_entry list) \<Rightarrow> filesystem \<Rightarrow> store \<Rightarrow> error + store" where
  "load_try parse fs st =
     (if existsSync fs (storePath st) then
        (case readFile fs (storePath st) of
           Inl e \<Rightarrow> Inl e
         | Inr content \<Rightarrow>
             (case parse content of
                Inl e \<Rightarrow> Inl e
              | Inr vs \<Rightarrow> Inr (st\<lparr>vectors := vs\<rparr>)))
      else Inr st)"

definition load :: "(string \<Rightarrow> error + vector_entry list) \<Rightarrow> filesystem \<Rightarrow> store \<Rightarrow> error + store" where
  "load parse fs st =
     (case load_try parse fs st of
        Inl e \<Rightarrow> Inr (st\<lparr>vectors := []\<rparr>)
      | Inr st' \<Rightarrow> Inr st')"

text \<open>
  The \<^verbatim>\<open>catch\<close> of \<open>save\<close> only logs the error: whether the write succeeds or
  rejects, what \<open>save\<close> leaves behind is the file system as the write left it.
\<close>

definition save :: "(vector_entry list \<Rightarrow> string) \<Rightarrow> write_fault \<Rightarrow> filesystem \<Rightarrow> store \<Rightarrow> filesystem" where
  "save stringify fault fs st =
     (case writeFile fault fs (storePath st) (stringify (vectors st)) of
        (Some e, fs') \<Rightarrow> fs'
      | (None, fs') \<Rightarrow> fs')"

subsection \<open>\<^verbatim>\<open>VectorStore.add\<close>\<close>

definition add :: "vector_entry \<Rightarrow> store \<Rightarrow> store" where
  "add entry st = st\<lparr>vectors := filter (\<lambda>v. ve_id v \<noteq> ve_id entry) (vectors st) @ [entry]\<rparr>"

subsection \<open>\<^verbatim>\<open>VectorStore.cosineSimilarity\<close> and \<^verbatim>\<open>VectorStore.query\<close>\<close>

text \<open>The loop over the index \<open>i\<close>, with the three accumulators of the source.\<close>

fun cos_loop :: "real list \<Rightarrow> real list \<Rightarrow> real \<times> real \<times> real \<Rightarrow> real \<times> real \<times> real" where
  "cos_loop (x # xs) (y # ys) (dotProduct, normA, normB) =
     cos_loop xs ys (dotProduct + x * y, normA + x * x, normB + y * y)"
| "cos_loop _ _ acc = acc"

definition cosine :: "real list \<Rightarrow> real list \<Rightarrow> real" where
  "cosine a b =
     (case cos_loop a b (0, 0, 0) of
        (dotProduct, normA, normB) \<Rightarrow>
          if sqrt normA = 0 \<or> sqrt normB = 0 then 0
          else dotProduct / (sqrt normA * sqrt normB))"

definition cosineSimilarity :: "real list \<Rightarrow> real list \<Rightarrow> error + real" where
  "cosineSimilarity a b =
     (if length a \<noteq> length b then Inl LengthMismatch else Inr (cosine a b))"

text \<open>\<^verbatim>\<open>this.vectors.map(entry => ({entry, similarity: ...}))\<close>: the first throw ends the map.\<close>

fun similarities :: "real list \<Rightarrow> vector_entry list \<Rightarrow> error + (vector_entry \<times> real) list" where
  "similarities q [] = Inr []"
| "similarities q (entry # es) =
     (case cosineSimilarity q (ve_embedding entry) of
        Inl err \<Rightarrow> Inl err
      | Inr s \<Rightarrow>
          (case similarities q es of
             Inl err \<Rightarrow> Inl err
           | Inr rest \<Rightarrow> Inr ((entry, s) # rest)))"

text \<open>
  \<^verbatim>\<open>Array.prototype.sort\<close> with a comparator is a stable sort: an element goes before
  another when the comparator is negative, after it when positive, and equal elements keep
  their order. It is modelled as an insertion sort that folds from the right and puts an
  element in front of the first one it does not have to follow.
\<close>

fun insort_cmp :: "('a \<Rightarrow> 'a \<Rightarrow> real) \<Rightarrow> 'a \<Rightarrow> 'a list \<Rightarrow> 'a list" where
  "insort_cmp cmp x [] = [x]"
| "insort_cmp cmp x (y # ys) = (if cmp x y \<le> 0 then x # y # ys else y # insort_cmp cmp x ys)"

definition js_sort :: "('a \<Rightarrow> 'a \<Rightarrow> real) \<Rightarrow> 'a list \<Rightarrow> 'a list" where
  "js_sort cmp xs = foldr (insort_cmp cmp) xs []"

text \<open>\<^verbatim>\<open>xs.slice(0, end)\<close> for an integer \<open>end\<close>: a negative end counts from the back.\<close>

definition slice0 :: "'a list \<Rightarrow> int \<Rightarrow> 'a list" where
  "slice0 xs e =
     (let n = int (length xs);
          k = (if e < 0 then max (n + e) 0 else min e n)
      in take (nat k) xs)"

definition to_similar :: "vector_entry \<times> real \<Rightarrow> similar_note" where
  "to_similar p =
     \<lparr>sn_id = ve_id (fst p),
      sn_filePath = md_filePath (ve_metadata (fst p)),
      sn_folderPath = md_folderPath (ve_metadata (fst p)),
      sn_similarity = snd p,
      sn_document = ''''\<rparr>"

definition query :: "store \<Rightarrow> real list \<Rightarrow> int \<Rightarrow> error + similar_note list" where
  "query st embedding topK =
     (if length (vectors st) = 0 then Inr []
      else
        (case similarities embedding (vectors st) of
           Inl err \<Rightarrow> Inl err
         | Inr sims \<Rightarrow>
             Inr (map to_similar (slice0 (js_sort (\<lambda>a b. snd b - snd a) sims) topK))))"

text \<open>
  The entries of the index in insertion order, each with its similarity to the query:
  the reference against which the ranking is stated.
\<close>

definition scored :: "real list \<Rightarrow> store \<Rightarrow> similar_note list" where
  "scored q st = map (\<lambda>e. to_similar (e, cosine q (ve_embedding e))) (vectors st)"

subsection \<open>JavaScript numbers and strings\<close>

datatype jsnum = Fin real | PosInf | NegInf | NaN

fun js_lt :: "jsnum \<Rightarrow> jsnum \<Rightarrow> bool" where
  "js_lt (Fin a) (Fin b) = (a < b)"
| "js_lt (Fin a) PosInf = True"
| "js_lt NegInf (Fin b) = True"
| "js_lt NegInf PosInf = True"
| "js_lt _ _ = False"

fun js_neg :: "jsnum \<Rightarrow> jsnum" where
  "js_neg (Fin a) = Fin (- a)"
| "js_neg PosInf = NegInf"
| "js_neg NegInf = PosInf"
| "js_neg NaN = NaN"

fun js_div100 :: "jsnum \<Rightarrow> jsnum" where
  "js_div100 (Fin a) = Fin (a / 100)"
| "js_div100 x = x"

fun in_unit :: "jsnum \<Rightarrow> bool" where
  "in_unit (Fin a) = (0 \<le> a \<and> a \<le> 1)"
| "in_unit _ = False"

text \<open>
  White space and line terminators among the 8-bit code units, as \<^verbatim>\<open>trim\<close> and
  \<^verbatim>\<open>parseFloat\<close> skip them.
\<close>

definition is_space :: "char \<Rightarrow> bool" where
  "is_space c = (c \<in> set [CHR 0x09, CHR 0x0A, CHR 0x0B, CHR 0x0C, CHR 0x0D, CHR 0x20, CHR 0xA0])"

definition trimStart :: "string \<Rightarrow> string" where
  "trimStart s = dropWhile is_space s"

definition trim :: "string \<Rightarrow> string" where
  "trim s = rev (dropWhile is_space (rev (dropWhile is_space s)))"

definition startsWith :: "string \<Rightarrow> string \<Rightarrow> bool" where
  "startsWith s p = (take (length p) s = p)"

text \<open>\<^verbatim>\<open>s.replace(pat, rep)\<close> with a string pattern replaces the first occurrence only.\<close>

fun replace :: "string \<Rightarrow> string \<Rightarrow> string \<Rightarrow> string" where
  "replace [] pat rep = (if pat = [] then rep else [])"
| "replace (c # cs) pat rep =
     (if startsWith (c # cs) pat then rep @ drop (length pat) (c # cs)
      else c # replace cs pat rep)"

fun split_lines :: "string \<Rightarrow> string list" where
  "split_lines [] = [[]]"
| "split_lines (c # cs) =
     (if c = CHR 0x0A then [] # split_lines cs
      else (case split_lines cs of [] \<Rightarrow> [[c]] | l # ls \<Rightarrow> (c # l) # ls))"

text \<open>
  \<^verbatim>\<open>parseFloat\<close> skips leading white space and reads the longest prefix that is a
  decimal literal: an optional sign, then \<^verbatim>\<open>Infinity\<close> or digits with an optional
  fraction and an optional exponent; without such a prefix the result is \<^verbatim>\<open>NaN\<close>.
  The value is the exact real number, not its nearest double.
\<close>

definition is_digit :: "char \<Rightarrow> bool" where
  "is_digit c = (48 \<le> (of_char c :: nat) \<and> (of_char c :: nat) \<le> 57)"

definition digits_val :: "string \<Rightarrow> nat" where
  "digits_val ds = foldl (\<lambda>acc c. 10 * acc + ((of_char c :: nat) - 48)) 0 ds"

definition pow10 :: "int \<Rightarrow> real" where
  "pow10 e = (if 0 \<le> e then 10 ^ nat e else 1 / 10 ^ nat (- e))"

definition exponent_part :: "string \<Rightarrow> int" where
  "exponent_part s =
     (case s of
        [] \<Rightarrow> 0
      | c # r \<Rightarrow>
          if c = CHR ''e'' \<or> c = CHR ''E'' then
            (case r of
               [] \<Rightarrow> 0
             | d # r' \<Rightarrow>
                 if d = CHR ''-'' then - int (digits_val (takeWhile is_digit r'))
                 else if d = CHR ''+'' then int (digits_val (takeWhile is_digit r'))
                 else int (digits_val (takeWhile is_digit r)))
          else 0)"

definition unsigned_literal :: "string \<Rightarrow> jsnum" where
  "unsigned_literal u =
     (if startsWith u ''Infinity'' then PosInf
      else
        let ip = takeWhile is_digit u;
            r1 = dropWhile is_digit u;
            fp = (case r1 of [] \<Rightarrow> [] | c # r \<Rightarrow> if c = CHR ''.'' then takeWhile is_digit r else []);
            r2 = (case r1 of [] \<Rightarrow> [] | c # r \<Rightarrow> if c = CHR ''.'' then dropWhile is_digit r else r1)
        in if ip = [] \<and> fp = [] then NaN
           else Fin ((real (digits_val ip) + real (digits_val fp) / 10 ^ length fp)
                      * pow10 (exponent_part r2)))"

definition parseFloat :: "string \<Rightarrow> jsnum" where
  "parseFloat s =
     (case trimStart s of
        [] \<Rightarrow> NaN
      | c # u \<Rightarrow>
          if c = CHR ''-'' then js_neg (unsigned_literal u)
          else if c = CHR ''+'' then unsigned_literal u
          else unsigned_literal (c # u))"

subsection \<open>\<^verbatim>\<open>NoteSorter.parseLLMResponse\<close>\<close>

record sort_suggestion =
  sg_folder :: string
  sg_confidence :: jsnum
  sg_reason :: string

definition confStr :: "string \<Rightarrow> string" where
  "confStr trimmed = replace (trim (replace trimmed ''CONFIDENCE:'' '''')) ''%'' ''''"

fun parse_lines :: "string list \<Rightarrow> sort_suggestion \<Rightarrow> sort_suggestion" where
  "parse_lines [] sg = sg"
| "parse_lines (line # lines) sg =
     parse_lines lines
       (let trimmed = trim line in
        if startsWith trimmed ''FOLDER:'' then
          sg\<lparr>sg_folder := trim (replace trimmed ''FOLDER:'' '''')\<rparr>
        else if startsWith trimmed ''CONFIDENCE:'' then
          sg\<lparr>sg_confidence := js_div100 (parseFloat (confStr trimmed))\<rparr>
        else if startsWith trimmed ''REASON:'' then
          sg\<lparr>sg_reason := trim (replace trimmed ''REASON:'' '''')\<rparr>
        else sg)"

definition parseLLMResponse :: "string \<Rightarrow> sort_suggestion" where
  "parseLLMResponse response =
     parse_lines (split_lines (trim response))
       \<lparr>sg_folder = '''', sg_confidence = Fin 0, sg_reason = ''''\<rparr>"

text \<open>
  The trimmed lines of a reply that the \<^verbatim>\<open>CONFIDENCE:\<close> branch of the loop handles.
\<close>

definition confidence_lines :: "string \<Rightarrow> string list" where
  "confidence_lines response =
     filter (\<lambda>t. startsWith t ''CONFIDENCE:'') (map trim (split_lines (trim response)))"

subsection \<open>\<^verbatim>\<open>NoteSorter.getSuggestion\<close>\<close>

text \<open>
  The outcome of the \<^verbatim>\<open>ollama.chat\<close> call is a parameter: \<open>Some content\<close> for a
  reply, \<open>None\<close> when the call throws. The prompt text sent to the provider has no effect
  on what the function returns and is left out. In the fallback,
  \<^verbatim>\<open>folders.reduce((a, b, i, arr) => ...)\<close> without an initial value starts from the
  first folder and folds over the others; the guard \<^verbatim>\<open>similarNotes.length > 0\<close> is the
  case distinction on the list.
\<close>

definition occurrences :: "string list \<Rightarrow> string \<Rightarrow> nat" where
  "occurrences arr a = length (filter (\<lambda>v. v = a) arr)"

definition pick :: "string list \<Rightarrow> string \<Rightarrow> string \<Rightarrow> string" where
  "pick arr a b = (if occurrences arr a \<ge> occurrences arr b then a else b)"

definition getSuggestion :: "string option \<Rightarrow> similar_note list \<Rightarrow> sort_suggestion" where
  "getSuggestion reply similarNotes =
     (case reply of
        Some content \<Rightarrow> parseLLMResponse content
      | None \<Rightarrow>
          (case map sn_folderPath similarNotes of
             [] \<Rightarrow> \<lparr>sg_folder = '''', sg_confidence = Fin 0, sg_reason = ''''\<rparr>
           | a # rest \<Rightarrow>
               \<lparr>sg_folder = foldl (pick (a # rest)) a rest,
                sg_confidence = Fin (1 / 2),
                sg_reason = ''Fallback: based on similar notes''\<rparr>))"

subsection \<open>Paths and \<^verbatim>\<open>NoteSorter.moveNote\<close>\<close>

text \<open>
  \<^verbatim>\<open>join\<close> of a normalised folder and a relative name puts one separator between them;
  normalisation of dot segments is not modelled. \<open>basename\<close> is the component after the
  last separator, \<open>extname\<close> runs from the last dot of that component unless the dot is its
  first character or the component is \<^verbatim>\<open>..\<close>, and \<open>basename_ext\<close> is
  \<^verbatim>\<open>basename(p, ext)\<close>.
\<close>

definition path_join :: "string \<Rightarrow> string \<Rightarrow> string" where
  "path_join a b = a @ ''/'' @ b"

definition basename :: "string \<Rightarrow> string" where
  "basename p = rev (takeWhile (\<lambda>c. c \<noteq> CHR ''/'') (rev p))"

definition extname :: "string \<Rightarrow> string" where
  "extname p =
     (let b = basename p;
          e = rev (takeWhile (\<lambda>c. c \<noteq> CHR ''.'') (rev b))
      in if CHR ''.'' \<notin> set b \<or> length e + 1 = length b \<or> b = ''..'' then ''''
         else CHR ''.'' # e)"

definition basename_ext :: "string \<Rightarrow> string \<Rightarrow> string" where
  "basename_ext p ext =
     (let b = basename p
      in if ext \<noteq> [] \<and> length ext < length b \<and> drop (length b - length ext) b = ext
         then take (length b - length ext) b else b)"

text \<open>The decimal rendering of the counter in the template string.\<close>

definition digit_char :: "nat \<Rightarrow> char" where
  "digit_char d = ''0123456789'' ! d"

fun show_nat :: "nat \<Rightarrow> string" where
  "show_nat n = (if n < 10 then [digit_char n] else show_nat (n div 10) @ [digit_char (n mod 10)])"

declare show_nat.simps [simp del]

definition candidate :: "string \<Rightarrow> string \<Rightarrow> string \<Rightarrow> nat \<Rightarrow> string" where
  "candidate destFolder name ext counter = path_join destFolder (name @ ''_'' @ show_nat counter @ ext)"

text \<open>
  Distinct counters give distinct candidate names, so a finite file system cannot hold them
  all: the search for a free name ends.
\<close>

lemma digit_char_inj: "a < 10 \<Longrightarrow> b < 10 \<Longrightarrow> digit_char a = digit_char b \<Longrightarrow> a = b"
proof -
  assume a: "a < 10" and b: "b < 10" and eq: "digit_char a = digit_char b"
  have "distinct ''0123456789''" by simp
  from nth_eq_iff_index_eq [OF this, of a b] a b eq show "a = b"
    by (simp add: digit_char_def)
qed

lemma show_nat_small: "n < 10 \<Longrightarrow> show_nat n = [digit_char n]"
  by (subst show_nat.simps) simp

lemma show_nat_big: "\<not> n < 10 \<Longrightarrow> show_nat n = show_nat (n div 10) @ [digit_char (n mod 10)]"
  by (subst show_nat.simps) simp

lemma length_show_nat: "0 < length (show_nat n)"
  by (cases "n < 10") (simp_all add: show_nat_small show_nat_big)

lemma length_show_nat_big: "\<not> n < 10 \<Longrightarrow> 1 < length (show_nat n)"
  using length_show_nat [of "n div 10"] by (simp add: show_nat_big)

lemma show_nat_inj: "show_nat m = show_nat n \<Longrightarrow> m = n"
proof (induction m arbitrary: n rule: show_nat.induct)
  case (1 m)
  show ?case
  proof (cases "m < 10")
    case m: True
    show ?thesis
    proof (cases "n < 10")
      case True
      with m "1.prems" show ?thesis
        by (simp add: show_nat_small digit_char_inj)
    next
      case False
      from "1.prems" have "length (show_nat m) = length (show_nat n)"
        by simp
      with length_show_nat_big [OF False] m show ?thesis
        by (simp add: show_nat_small)
    qed
  next
    case m: False
    show ?thesis
    proof (cases "n < 10")
      case True
      from "1.prems" have "length (show_nat m) = length (show_nat n)"
        by simp
      with length_show_nat_big [OF m] True show ?thesis
        by (simp add: show_nat_small)
    next
      case False
      with m "1.prems" have eq: "show_nat (m div 10) = show_nat (n div 10)"
        and d: "digit_char (m mod 10) = digit_char (n mod 10)"
        by (simp_all add: show_nat_big)
      from "1.IH" [OF m eq] have "m div 10 = n div 10" .
      moreover from d have "m mod 10 = n mod 10"
        by (rule digit_char_inj [rotated 2]) simp_all
      ultimately show ?thesis
        by (metis div_mult_mod_eq)
    qed
  qed
qed

lemma candidate_inj: "inj (candidate destFolder name ext)"
proof (rule injI)
  fix m n
  assume "candidate destFolder name ext m = candidate destFolder name ext n"
  then have "show_nat m = show_nat n"
    by (simp add: candidate_def path_join_def)
  then show "m = n"
    by (rule show_nat_inj)
qed

lemma finite_taken: "finite {n. existsSync fs (candidate destFolder name ext n)}"
proof -
  have "{n. existsSync fs (candidate destFolder name ext n)} = candidate destFolder name ext -` fmdom' fs"
    by (auto simp only: existsSync_def fmlookup_dom'_iff vimage_def mem_Collect_eq not_None_eq)
  moreover have "finite (candidate destFolder name ext -` fmdom' fs)"
    by (rule finite_vimageI [OF finite_fmdom' candidate_inj])
  ultimately show ?thesis
    by (simp only:)
qed

text \<open>
  The loop \<^verbatim>\<open>while (existsSync(destination)) { destination = ...; counter++ }\<close>.
\<close>

function find_free :: "filesystem \<Rightarrow> string \<Rightarrow> string \<Rightarrow> string \<Rightarrow> string \<Rightarrow> nat \<Rightarrow> string" where
  "find_free fs destFolder name ext destination counter =
     (if existsSync fs destination
      then find_free fs destFolder name ext (candidate destFolder name ext counter) (counter + 1)
      else destination)"
  by pat_completeness auto
termination
proof (relation "measure (\<lambda>(fs, destFolder, name, ext, destination, counter).
          card {n. counter \<le> n \<and> existsSync fs (candidate destFolder name ext n)}
          + (if existsSync fs destination then 1 else 0))")
  show "wf (measure (\<lambda>(fs, destFolder, name, ext, destination, counter).
          card {n. counter \<le> n \<and> existsSync fs (candidate destFolder name ext n)}
          + (if existsSync fs destination then 1 else 0)))"
    by simp
next
  fix fs :: filesystem and destFolder name ext destination :: string and counter :: nat
  assume ex: "existsSync fs destination"
  let ?P = "\<lambda>n. existsSync fs (candidate destFolder name ext n)"
  have fin: "finite {n. counter + 1 \<le> n \<and> ?P n}"
    by (rule finite_subset [OF _ finite_taken [of fs destFolder name ext]]) auto
  have "card {n. counter + 1 \<le> n \<and> ?P n} + (if ?P counter then 1 else 0)
        = card {n. counter \<le> n \<and> ?P n}"
  proof (cases "?P counter")
    case True
    then have "{n. counter \<le> n \<and> ?P n} = insert counter {n. counter + 1 \<le> n \<and> ?P n}"
      by (auto simp: le_Suc_eq)
    with fin True show ?thesis by simp
  next
    case False
    then have "{n. counter \<le> n \<and> ?P n} = {n. counter + 1 \<le> n \<and> ?P n}"
      by (metis (no_types, opaque_lifting) Suc_eq_plus1 Suc_leD Suc_leI le_neq_implies_less)
    with False show ?thesis by simp
  qed
  with ex show "((fs, destFolder, name, ext, candidate destFolder name ext counter, counter + 1),
                 (fs, destFolder, name, ext, destination, counter)) \<in>
        measure (\<lambda>(fs, destFolder, name, ext, destination, counter).
          card {n. counter \<le> n \<and> existsSync fs (candidate destFolder name ext n)}
          + (if existsSync fs destination then 1 else 0))"
    by simp
qed

declare find_free.simps [simp del]

definition moveNote :: "string \<Rightarrow> filesystem \<Rightarrow> string \<Rightarrow> string \<Rightarrow> string option \<times> filesystem" where
  "moveNote workspace fs sourcePath destinationFolder =
     (let destFolder = path_join workspace destinationFolder
      in case (if \<not> existsSync fs destFolder then mkdirSync fs destFolder else Inr fs) of
           Inl e \<Rightarrow> (None, fs)
         | Inr fs1 \<Rightarrow>
             (let destination0 = path_join destFolder (basename sourcePath);
                  destination =
                    (if existsSync fs1 destination0
                     then find_free fs1 destFolder
                            (basename_ext sourcePath (extname sourcePath)) (extname sourcePath)
                            destination0 1
                     else destination0)
              in case renameSync fs1 sourcePath destination of
                   Inl e \<Rightarrow> (None, fs1)
                 | Inr fs2 \<Rightarrow> (Some destination, fs2)))"

subsection \<open>Sort history and the memory manager\<close>

text \<open>
  The \<^verbatim>\<open>sort_history\<close> table is the list of its rows in insertion order, with the
  autoincremented \<open>id\<close>; the timestamp column is left out. \<open>getLastSort\<close> is
  \<^verbatim>\<open>ORDER BY id DESC LIMIT 1\<close>. Of the \<^verbatim>\<open>notes\<close> table only the content preview
  per id is kept.
\<close>

record sort_history =
  sh_id :: nat
  sh_noteId :: string
  sh_fromPath :: string
  sh_toPath :: string
  sh_confidence :: jsnum

definition recordSort :: "sort_history list \<Rightarrow> string \<Rightarrow> string \<Rightarrow> string \<Rightarrow> jsnum \<Rightarrow> sort_history list" where
  "recordSort rows noteId fromPath toPath confidence =
     rows @ [\<lparr>sh_id = Suc (fold max (map sh_id rows) 0), sh_noteId = noteId,
              sh_fromPath = fromPath, sh_toPath = toPath, sh_confidence = confidence\<rparr>]"

fun getLastSort :: "sort_history list \<Rightarrow> sort_history option" where
  "getLastSort [] = None"
| "getLastSort (r # rows) =
     (case getLastSort rows of
        None \<Rightarrow> Some r
      | Some m \<Rightarrow> if sh_id m < sh_id r then Some r else Some m)"

record world =
  w_fs :: filesystem
  w_store :: store
  w_history :: "sort_history list"
  w_notes :: "(string, string) fmap"

text \<open>
  What the sorter reads from its configuration and collaborators: the threshold,
  \<^verbatim>\<open>topKSimilar\<close>, the resolved workspace path, the embedding function (\<open>None\<close> before
  \<^verbatim>\<open>initialize\<close>), \<^verbatim>\<open>JSON.stringify\<close> and the clock.
\<close>

record env =
  confidenceThreshold :: jsnum
  topKSimilar :: int
  workspacePath :: string
  embedFn :: "(string \<Rightarrow> real list) option"
  jsonStringify :: "vector_entry list \<Rightarrow> string"
  clock :: string

definition findSimilarNotes :: "env \<Rightarrow> world \<Rightarrow> string \<Rightarrow> int \<Rightarrow> error + similar_note list" where
  "findSimilarNotes e w content topK =
     (case embedFn e of
        None \<Rightarrow> Inl EmbedNotInitialized
      | Some f \<Rightarrow>
          (case query (w_store w) (f content) topK of
             Inl err \<Rightarrow> Inl err
           | Inr results \<Rightarrow>
               Inr (map (\<lambda>result.
                      result\<lparr>sn_document :=
                        (case fmlookup (w_notes w) (sn_id result) of
                           None \<Rightarrow> ''''
                         | Some preview \<Rightarrow> preview)\<rparr>) results)))"

definition addNote :: "env \<Rightarrow> world \<Rightarrow> string \<Rightarrow> string \<Rightarrow> string \<Rightarrow> error + world" where
  "addNote e w filePath content folderPath =
     (case embedFn e of
        None \<Rightarrow> Inl EmbedNotInitialized
      | Some f \<Rightarrow>
          (let st = add \<lparr>ve_id = filePath, ve_embedding = f content,
                         ve_metadata = \<lparr>md_filePath = filePath, md_folderPath = folderPath,
                                        md_createdAt = clock e\<rparr>\<rparr> (w_store w)
           in Inr (w\<lparr>w_store := st,
                     w_fs := save (jsonStringify e) Completes (w_fs w) st,
                     w_notes := fmupd filePath (take 200 content) (w_notes w)\<rparr>)))"

subsection \<open>\<^verbatim>\<open>NoteSorter.sortNote\<close>\<close>

text \<open>
  A call of \<^verbatim>\<open>prompts.confirm\<close> is a question put to the user, who answers with a
  boolean or cancels. What \<open>sortNote\<close> prints and asks is recorded, in order, as a list of
  events.
\<close>

datatype prompt = ProceedAnyway | MoveNote

datatype answer = Confirmed bool | Cancelled

datatype message =
    ReadError | TooShort | NoFolder | LowConfidence | Suggestion | DryRun
  | MemoryWarning | MovedOk

datatype event = Log message | Ask prompt

record sort_result =
  sr_success :: bool
  sr_from :: "string option"
  sr_to :: "string option"
  sr_confidence :: "jsnum option"
  sr_error :: "string option"

definition failure :: "string \<Rightarrow> sort_result" where
  "failure msg =
     \<lparr>sr_success = False, sr_from = None, sr_to = None, sr_confidence = None,
      sr_error = Some msg\<rparr>"

text \<open>The bookkeeping after a successful move: \<open>recordSort\<close>, then the guarded \<open>addNote\<close>.\<close>

definition record_move :: "env \<Rightarrow> world \<Rightarrow> string \<Rightarrow> string \<Rightarrow> sort_suggestion \<Rightarrow> world \<times> event list" where
  "record_move e w notePath destination suggestion =
     (let w1 = w\<lparr>w_history :=
                  recordSort (w_history w) notePath notePath destination (sg_confidence suggestion)\<rparr>
      in case (case readFile (w_fs w1) destination of
                 Inl err \<Rightarrow> Inl err
               | Inr newContent \<Rightarrow> addNote e w1 destination newContent (sg_folder suggestion)) of
           Inl err \<Rightarrow> (w1, [Log MemoryWarning, Log MovedOk])
         | Inr w2 \<Rightarrow> (w2, [Log MovedOk]))"

text \<open>
  The part of \<open>sortNote\<close> from the comment \<^verbatim>\<open>// Check confidence threshold\<close> to its
  end, for a suggestion with a folder.
\<close>

definition confidence_policy ::
  "env \<Rightarrow> (prompt \<Rightarrow> answer) \<Rightarrow> world \<Rightarrow> string \<Rightarrow> bool \<Rightarrow> bool \<Rightarrow> sort_suggestion
   \<Rightarrow> sort_result \<times> event list \<times> world" where
  "confidence_policy e ask w notePath auto dryRun suggestion =
     (let low = js_lt (sg_confidence suggestion) (confidenceThreshold e);
          warned = (if low then Log LowConfidence # (if \<not> auto then [Ask ProceedAnyway] else [])
                    else [])
      in if low \<and> \<not> auto \<and> ask ProceedAnyway \<noteq> Confirmed True then
           (failure ''User cancelled'', warned, w)
         else if dryRun then
           (\<lparr>sr_success = True, sr_from = Some notePath,
             sr_to = Some (path_join (path_join (workspacePath e) (sg_folder suggestion))
                            (basename notePath)),
             sr_confidence = Some (sg_confidence suggestion), sr_error = None\<rparr>,
            warned @ [Log Suggestion, Log DryRun], w)
         else if \<not> auto \<and> ask MoveNote \<noteq> Confirmed True then
           (failure ''User cancelled'', warned @ [Log Suggestion, Ask MoveNote], w)
         else
           (let shown = warned @ Log Suggestion # (if \<not> auto then [Ask MoveNote] else [])
            in case moveNote (workspacePath e) (w_fs w) notePath (sg_folder suggestion) of
                 (None, fs') \<Rightarrow> (failure ''Failed to move file'', shown, w\<lparr>w_fs := fs'\<rparr>)
               | (Some destination, fs') \<Rightarrow>
                   (case record_move e (w\<lparr>w_fs := fs'\<rparr>) notePath destination suggestion of
                      (w', logged) \<Rightarrow>
                        (\<lparr>sr_success = True, sr_from = Some notePath, sr_to = Some destination,
                          sr_confidence = Some (sg_confidence suggestion), sr_error = None\<rparr>,
                         shown @ logged, w'))))"

definition sortNote ::
  "env \<Rightarrow> (prompt \<Rightarrow> answer) \<Rightarrow> string option \<Rightarrow> world \<Rightarrow> string \<Rightarrow> bool \<Rightarrow> bool
   \<Rightarrow> error + sort_result \<times> event list \<times> world" where
  "sortNote e ask reply w notePath auto dryRun =
     (case readFile (w_fs w) notePath of
        Inl err \<Rightarrow> Inr (failure ''Failed to read file'', [Log ReadError], w)
      | Inr content \<Rightarrow>
          if length (trim content) < 10 then
            Inr (failure ''Content too short'', [Log TooShort], w)
          else
            (case findSimilarNotes e w content (topKSimilar e) of
               Inl err \<Rightarrow> Inl err
             | Inr similarNotes \<Rightarrow>
                 (let suggestion = getSuggestion reply similarNotes
                  in if sg_folder suggestion = [] then
                       Inr (failure ''No suggestion'', [Log NoFolder], w)
                     else Inr (confidence_policy e ask w notePath auto dryRun suggestion))))"

text \<open>Projections of what \<open>sortNote\<close> returns.\<close>

definition result_of :: "error + sort_result \<times> event list \<times> world \<Rightarrow> sort_result option" where
  "result_of x = (case x of Inl err \<Rightarrow> None | Inr (r, evs, w) \<Rightarrow> Some r)"

definition events_of :: "error + sort_result \<times> event list \<times> world \<Rightarrow> event list" where
  "events_of x = (case x of Inl err \<Rightarrow> [] | Inr (r, evs, w) \<Rightarrow> evs)"

definition files_of :: "error + sort_result \<times> event list \<times> world \<Rightarrow> filesystem" where
  "files_of x = (case x of Inl err \<Rightarrow> fmempty | Inr (r, evs, w) \<Rightarrow> w_fs w)"

subsection \<open>\<^verbatim>\<open>NoteSorter.undoLastSort\<close>\<close>

text \<open>
  \<^verbatim>\<open>fromPath.substring(0, fromPath.lastIndexOf("/"))\<close>: without a slash the index is
  \<open>-1\<close> and the substring is empty.
\<close>

definition parent_dir :: "string \<Rightarrow> string" where
  "parent_dir p =
     (if CHR ''/'' \<in> set p
      then take (length p - 1 - length (takeWhile (\<lambda>c. c \<noteq> CHR ''/'') (rev p))) p
      else '''')"

text \<open>
  \<open>getLastSort\<close> hands back the database row as it is: an object whose keys are the
  column names \<^verbatim>\<open>to_path\<close> and \<^verbatim>\<open>from_path\<close> (the fields \<open>sh_toPath\<close> and
  \<open>sh_fromPath\<close> of the row). The cast to \<^verbatim>\<open>SortHistory\<close> renames nothing, so the
  properties \<^verbatim>\<open>toPath\<close> and \<^verbatim>\<open>fromPath\<close> that \<open>undoLastSort\<close> reads are undefined on
  every row. \<^verbatim>\<open>existsSync\<close> of an undefined path is false, and
  \<^verbatim>\<open>undefined.substring\<close> throws inside the \<^verbatim>\<open>try\<close>.
\<close>

definition toPath :: "sort_history \<Rightarrow> string option" where
  "toPath lastSort = None"

definition fromPath :: "sort_history \<Rightarrow> string option" where
  "fromPath lastSort = None"

definition undoLastSort :: "world \<Rightarrow> bool \<times> world" where
  "undoLastSort w =
     (case getLastSort (w_history w) of
        None \<Rightarrow> (False, w)
      | Some lastSort \<Rightarrow>
          if \<not> (case toPath lastSort of None \<Rightarrow> False | Some dst \<Rightarrow> existsSync (w_fs w) dst)
          then (False, w)
          else
            (case (fromPath lastSort, toPath lastSort) of
               (Some src, Some dst) \<Rightarrow>
                 (let sourceDir = parent_dir src
                  in case (if \<not> existsSync (w_fs w) sourceDir then mkdirSync (w_fs w) sourceDir
                           else Inr (w_fs w)) of
                       Inl err \<Rightarrow> (False, w)
                     | Inr fs1 \<Rightarrow>
                         (case renameSync fs1 dst src of
                            Inl err \<Rightarrow> (False, w\<lparr>w_fs := fs1\<rparr>)
                          | Inr fs2 \<Rightarrow> (True, w\<lparr>w_fs := fs2\<rparr>)))
             | _ \<Rightarrow> (False, w)))"

subsection \<open>Example inputs\<close>

text \<open>
  A workspace \<^verbatim>\<open>/ws\<close> with one note in its inbox, an empty index and an empty history;
  the default threshold 0.7; two provider replies; three neighbour lists (the plurality
  folder first, the plurality folder last, a tie); two notes of the same name; a history whose last destination is gone.
\<close>

definition example_env :: env where
  "example_env =
     \<lparr>confidenceThreshold = Fin (7 / 10), topKSimilar = 5, workspacePath = ''/ws'',
      embedFn = Some (\<lambda>content. [1, 0]), jsonStringify = (\<lambda>vs. ''[]''),
      clock = ''2024-01-01T00:00:00.000Z''\<rparr>"

definition example_world :: world where
  "example_world =
     \<lparr>w_fs = fmupd ''/ws/inbox/note.md'' (File ''Agenda for the planning meeting'') fmempty,
      w_store = new_store ''/data/vectors.json'',
      w_history = [],
      w_notes = fmempty\<rparr>"

definition reply_65 :: string where
  "reply_65 = ''FOLDER: work'' @ [CHR 0x0A] @ ''CONFIDENCE: 65''"

definition reply_high :: string where
  "reply_high = ''FOLDER: work'' @ [CHR 0x0A] @ ''CONFIDENCE: high''"

definition example_neighbours :: "similar_note list" where
  "example_neighbours =
     [\<lparr>sn_id = ''/ws/work/meetings/a.md'', sn_filePath = ''/ws/work/meetings/a.md'',
        sn_folderPath = ''work/meetings'', sn_similarity = 9 / 10, sn_document = ''''\<rparr>,
      \<lparr>sn_id = ''/ws/work/meetings/b.md'', sn_filePath = ''/ws/work/meetings/b.md'',
        sn_folderPath = ''work/meetings'', sn_similarity = 8 / 10, sn_document = ''''\<rparr>,
      \<lparr>sn_id = ''/ws/ideas/c.md'', sn_filePath = ''/ws/ideas/c.md'',
        sn_folderPath = ''ideas'', sn_similarity = 7 / 10, sn_document = ''''\<rparr>]"

definition late_neighbours :: "similar_note list" where
  "late_neighbours =
     [\<lparr>sn_id = ''/ws/ideas/c.md'', sn_filePath = ''/ws/ideas/c.md'',
        sn_folderPath = ''ideas'', sn_similarity = 9 / 10, sn_document = ''''\<rparr>,
      \<lparr>sn_id = ''/ws/work/meetings/a.md'', sn_filePath = ''/ws/work/meetings/a.md'',
        sn_folderPath = ''work/meetings'', sn_similarity = 8 / 10, sn_document = ''''\<rparr>,
      \<lparr>sn_id = ''/ws/work/meetings/b.md'', sn_filePath = ''/ws/work/meetings/b.md'',
        sn_folderPath = ''work/meetings'', sn_similarity = 7 / 10, sn_document = ''''\<rparr>]"

definition tied_neighbours :: "similar_note list" where
  "tied_neighbours =
     [\<lparr>sn_id = ''/ws/ideas/c.md'', sn_filePath = ''/ws/ideas/c.md'',
        sn_folderPath = ''ideas'', sn_similarity = 9 / 10, sn_document = ''''\<rparr>,
      \<lparr>sn_id = ''/ws/work/meetings/a.md'', sn_filePath = ''/ws/work/meetings/a.md'',
        sn_folderPath = ''work/meetings'', sn_similarity = 8 / 10, sn_document = ''''\<rparr>]"

definition two_notes :: filesystem where
  "two_notes =
     fmupd ''/ws/inbox/a/note.md'' (File ''first'')
       (fmupd ''/ws/inbox/b/note.md'' (File ''second'') fmempty)"

definition stale_world :: world where
  "stale_world =
     example_world\<lparr>w_history :=
       [\<lparr>sh_id = 1, sh_noteId = ''/ws/inbox/old.md'', sh_fromPath = ''/ws/inbox/old.md'',
         sh_toPath = ''/ws/work/old.md'', sh_confidence = Fin (9 / 10)\<rparr>]\<rparr>"

section \<open>Properties\<close>

subsection \<open>Sorting\<close>

lemma insort_cmp_key:
  "insort_cmp (\<lambda>a b. f b - f a) x ys = insort_key (\<lambda>a. - f a) x ys"
  by (induction ys) auto

lemma js_sort_key:
  "js_sort (\<lambda>a b. f b - f a) xs = sort_key (\<lambda>a. - f a) xs"
  by (induction xs) (simp_all add: js_sort_def insort_cmp_key)

lemma similarities_ok:
  "\<forall>e \<in> set es. length (ve_embedding e) = length q \<Longrightarrow>
   similarities q es = Inr (map (\<lambda>e. (e, cosine q (ve_embedding e))) es)"
  by (induction es) (simp_all add: cosineSimilarity_def)

lemma query_sorted:
  assumes "\<forall>e \<in> set (vectors st). length (ve_embedding e) = length q"
  shows "query st q k =
         Inr (map to_similar
               (slice0 (sort_key (\<lambda>p. - snd p)
                          (map (\<lambda>e. (e, cosine q (ve_embedding e))) (vectors st))) k))"
  using assms by (simp add: query_def similarities_ok js_sort_key slice0_def)

lemma slice0_nonneg: "0 \<le> k \<Longrightarrow> slice0 xs k = take (nat k) xs"
  by (auto simp: slice0_def Let_def min_def)

lemma sorted_desc_map:
  "sorted (map (\<lambda>p. - snd p) ps) \<Longrightarrow>
   sorted_wrt (\<lambda>a b. sn_similarity b \<le> sn_similarity a) (map to_similar ps)"
  by (induction ps) (auto simp: to_similar_def)

lemma filter_similarity_map:
  "filter (\<lambda>r. sn_similarity r = s) (map to_similar ps) =
   map to_similar (filter (\<lambda>p. - snd p = - s) ps)"
  by (induction ps) (auto simp: to_similar_def)

lemma ranking_stable:
  "filter (\<lambda>r. sn_similarity r = s)
     (map to_similar (sort_key (\<lambda>p. - snd p) (map (\<lambda>e. (e, cosine q (ve_embedding e))) es))) =
   filter (\<lambda>r. sn_similarity r = s) (map (\<lambda>e. to_similar (e, cosine q (ve_embedding e))) es)"
proof -
  let ?ps = "map (\<lambda>e. (e, cosine q (ve_embedding e))) es"
  have "filter (\<lambda>p. - snd p = - s) (sort_key (\<lambda>p. - snd p) ?ps) = filter (\<lambda>p. - snd p = - s) ?ps"
    by (rule sort_key_stable)
  then have "filter (\<lambda>r. sn_similarity r = s) (map to_similar (sort_key (\<lambda>p. - snd p) ?ps)) =
             filter (\<lambda>r. sn_similarity r = s) (map to_similar ?ps)"
    by (simp only: filter_similarity_map)
  then show ?thesis by (simp add: comp_def)
qed

subsection \<open>Ranking of \<^verbatim>\<open>query\<close>\<close>

text \<open>
  C4 (as amended). When every entry of the index has the dimension of the query embedding
  and \<open>k\<close> is not negative, \<open>query\<close> returns without error the first \<open>min k size\<close>
  entries of a ranking \<open>rs @ rest\<close> of the whole index that is sorted by descending cosine
  similarity and keeps entries of equal similarity in insertion order; for \<open>k\<close> at least
  the index size nothing is left out. On an empty index the result is the empty sequence
  for every query embedding and every \<open>k\<close>, never an error.
\<close>

theorem query_ranked:
  assumes "\<forall>e \<in> set (vectors st). length (ve_embedding e) = length q" and "0 \<le> k"
  shows "\<exists>rs rest.
           query st q k = Inr rs \<and>
           length rs = min (nat k) (length (vectors st)) \<and>
           sorted_wrt (\<lambda>a b. sn_similarity b \<le> sn_similarity a) (rs @ rest) \<and>
           mset (rs @ rest) = mset (scored q st) \<and>
           (\<forall>s. filter (\<lambda>r. sn_similarity r = s) (rs @ rest) =
                filter (\<lambda>r. sn_similarity r = s) (scored q st)) \<and>
           (int (length (vectors st)) \<le> k \<longrightarrow> rest = []) \<and>
           (vectors st = [] \<longrightarrow> query st q' k' = Inr [])"
proof -
  let ?ps = "map (\<lambda>e. (e, cosine q (ve_embedding e))) (vectors st)"
  let ?full = "map to_similar (sort_key (\<lambda>p. - snd p) ?ps)"
  let ?rs = "take (nat k) ?full" and ?rest = "drop (nat k) ?full"
  have q: "query st q k = Inr ?rs"
    using assms by (simp add: query_sorted slice0_nonneg take_map)
  have len: "length ?rs = min (nat k) (length (vectors st))"
    by simp
  have srt: "sorted_wrt (\<lambda>a b. sn_similarity b \<le> sn_similarity a) (?rs @ ?rest)"
    by (simp add: sorted_desc_map)
  have "mset (sort_key (\<lambda>p. - snd p) ?ps) = mset ?ps"
    by simp
  then have "mset ?full = mset (map to_similar ?ps)"
    by (metis mset_map)
  then have perm: "mset (?rs @ ?rest) = mset (scored q st)"
    by (simp add: scored_def comp_def)
  have stab: "\<forall>s. filter (\<lambda>r. sn_similarity r = s) (?rs @ ?rest) =
                  filter (\<lambda>r. sn_similarity r = s) (scored q st)"
    unfolding append_take_drop_id scored_def by (simp only: ranking_stable) simp
  have all: "int (length (vectors st)) \<le> k \<longrightarrow> ?rest = []"
    by auto
  have emp: "vectors st = [] \<longrightarrow> query st q' k' = Inr []"
    by (simp add: query_def)
  from q len srt perm stab all emp show ?thesis
    by blast
qed

theorem query_ranked_witness:
  "\<exists>rs rest.
     query \<lparr>vectors = [\<lparr>ve_id = ''a'', ve_embedding = [0, 1],
                        ve_metadata = \<lparr>md_filePath = ''/n/a.md'', md_folderPath = ''x'', md_createdAt = ''''\<rparr>\<rparr>,
                      \<lparr>ve_id = ''b'', ve_embedding = [1, 0],
                        ve_metadata = \<lparr>md_filePath = ''/n/b.md'', md_folderPath = ''y'', md_createdAt = ''''\<rparr>\<rparr>],
            storePath = ''vectors.json''\<rparr> [1, 0] 1 = Inr rs \<and>
     length rs = 1 \<and>
     sorted_wrt (\<lambda>a b. sn_similarity b \<le> sn_similarity a) (rs @ rest)"
  using query_ranked [of "\<lparr>vectors = [\<lparr>ve_id = ''a'', ve_embedding = [0, 1],
                        ve_metadata = \<lparr>md_filePath = ''/n/a.md'', md_folderPath = ''x'', md_createdAt = ''''\<rparr>\<rparr>,
                      \<lparr>ve_id = ''b'', ve_embedding = [1, 0],
                        ve_metadata = \<lparr>md_filePath = ''/n/b.md'', md_folderPath = ''y'', md_createdAt = ''''\<rparr>\<rparr>],
            storePath = ''vectors.json''\<rparr>" "[1, 0]" 1]
  by simp blast

text \<open>
  C4 as stated quantifies over every index state and query embedding. An entry whose
  dimension differs from the query's makes \<open>cosineSimilarity\<close> throw, and \<open>query\<close> with it.
\<close>

theorem query_dimension_counterexample:
  "query \<lparr>vectors = [\<lparr>ve_id = ''a'', ve_embedding = [1, 2],
                       ve_metadata = \<lparr>md_filePath = ''/n/a.md'', md_folderPath = ''x'', md_createdAt = ''''\<rparr>\<rparr>],
           storePath = ''vectors.json''\<rparr> [1] 1 = Inl LengthMismatch"
  by (simp add: query_def cosineSimilarity_def)

subsection \<open>Re-adding an entry\<close>

text \<open>
  C10. \<open>add\<close> with an id already in the index drops the old entry and appends the
  replacement at the end of the entry list. In a query that returns the whole index, the
  replacement therefore comes last among the entries that tie with it on similarity,
  whatever the position of the entry it replaces.
\<close>

theorem add_moves_entry_last:
  assumes "\<forall>v \<in> set (vectors st). length (ve_embedding v) = length q"
      and "length (ve_embedding e) = length q"
      and "int (length (vectors (add e st))) \<le> k"
  shows "vectors (add e st) = filter (\<lambda>v. ve_id v \<noteq> ve_id e) (vectors st) @ [e] \<and>
         (\<exists>rs. query (add e st) q k = Inr rs \<and>
            filter (\<lambda>r. sn_similarity r = cosine q (ve_embedding e)) rs =
            filter (\<lambda>r. sn_similarity r = cosine q (ve_embedding e))
              (scored q (st\<lparr>vectors := filter (\<lambda>v. ve_id v \<noteq> ve_id e) (vectors st)\<rparr>))
            @ [to_similar (e, cosine q (ve_embedding e))])"
proof -
  let ?old = "filter (\<lambda>v. ve_id v \<noteq> ve_id e) (vectors st)"
  let ?c = "cosine q (ve_embedding e)"
  let ?ps = "map (\<lambda>e. (e, cosine q (ve_embedding e))) (?old @ [e])"
  have vs: "vectors (add e st) = ?old @ [e]"
    by (simp add: add_def)
  have dims: "\<forall>v \<in> set (vectors (add e st)). length (ve_embedding v) = length q"
    using assms(1,2) by (auto simp: add_def)
  have k: "0 \<le> k" and full: "length (?old @ [e]) \<le> nat k"
    using assms(3) by (simp_all add: vs)
  have q: "query (add e st) q k = Inr (map to_similar (sort_key (\<lambda>p. - snd p) ?ps))"
    using full by (simp add: query_sorted [OF dims] slice0_nonneg [OF k] vs)
  have "filter (\<lambda>r. sn_similarity r = ?c) (map to_similar (sort_key (\<lambda>p. - snd p) ?ps)) =
        filter (\<lambda>r. sn_similarity r = ?c) (map (\<lambda>e. to_similar (e, cosine q (ve_embedding e))) (?old @ [e]))"
    by (rule ranking_stable)
  also have "\<dots> = filter (\<lambda>r. sn_similarity r = ?c) (scored q (st\<lparr>vectors := ?old\<rparr>)) @ [to_similar (e, ?c)]"
    by (simp add: scored_def to_similar_def)
  finally show ?thesis
    using vs q by simp
qed

theorem add_moves_entry_last_witness:
  "vectors (add \<lparr>ve_id = ''a'', ve_embedding = [1, 0],
                 ve_metadata = \<lparr>md_filePath = ''a'', md_folderPath = ''x'', md_createdAt = ''2''\<rparr>\<rparr>
              \<lparr>vectors = [\<lparr>ve_id = ''a'', ve_embedding = [1, 0],
                            ve_metadata = \<lparr>md_filePath = ''a'', md_folderPath = ''x'', md_createdAt = ''1''\<rparr>\<rparr>,
                          \<lparr>ve_id = ''b'', ve_embedding = [1, 0],
                            ve_metadata = \<lparr>md_filePath = ''b'', md_folderPath = ''y'', md_createdAt = ''1''\<rparr>\<rparr>],
                storePath = ''vectors.json''\<rparr>)
   = [\<lparr>ve_id = ''b'', ve_embedding = [1, 0],
        ve_metadata = \<lparr>md_filePath = ''b'', md_folderPath = ''y'', md_createdAt = ''1''\<rparr>\<rparr>,
      \<lparr>ve_id = ''a'', ve_embedding = [1, 0],
        ve_metadata = \<lparr>md_filePath = ''a'', md_folderPath = ''x'', md_createdAt = ''2''\<rparr>\<rparr>] \<and>
   (\<exists>rs. query (add \<lparr>ve_id = ''a'', ve_embedding = [1, 0],
                 ve_metadata = \<lparr>md_filePath = ''a'', md_folderPath = ''x'', md_createdAt = ''2''\<rparr>\<rparr>
              \<lparr>vectors = [\<lparr>ve_id = ''a'', ve_embedding = [1, 0],
                            ve_metadata = \<lparr>md_filePath = ''a'', md_folderPath = ''x'', md_createdAt = ''1''\<rparr>\<rparr>,
                          \<lparr>ve_id = ''b'', ve_embedding = [1, 0],
                            ve_metadata = \<lparr>md_filePath = ''b'', md_folderPath = ''y'', md_createdAt = ''1''\<rparr>\<rparr>],
                storePath = ''vectors.json''\<rparr>) [1, 0] 5 = Inr rs \<and>
      map sn_id (filter (\<lambda>r. sn_similarity r = 1) rs) = [''b'', ''a''])"
  using add_moves_entry_last
    [of "\<lparr>vectors = [\<lparr>ve_id = ''a'', ve_embedding = [1, 0],
                            ve_metadata = \<lparr>md_filePath = ''a'', md_folderPath = ''x'', md_createdAt = ''1''\<rparr>\<rparr>,
                          \<lparr>ve_id = ''b'', ve_embedding = [1, 0],
                            ve_metadata = \<lparr>md_filePath = ''b'', md_folderPath = ''y'', md_createdAt = ''1''\<rparr>\<rparr>],
                storePath = ''vectors.json''\<rparr>"
        "[1, 0]"
        "\<lparr>ve_id = ''a'', ve_embedding = [1, 0],
                 ve_metadata = \<lparr>md_filePath = ''a'', md_folderPath = ''x'', md_createdAt = ''2''\<rparr>\<rparr>"
        5]
  by (simp add: add_def cosine_def scored_def to_similar_def) force

subsection \<open>Loading the snapshot\<close>

text \<open>
  C9. \<open>load\<close> never throws. When the snapshot file is absent the index is left as it is
  (empty for a fresh store); when the file exists but reading it or parsing its content
  throws, the index is reset to the empty list. In the last two situations a later query
  returns the empty sequence, as on a fresh index.
\<close>

theorem load_never_throws:
  "(\<exists>st'. load parse fs st = Inr st') \<and>
   (\<not> existsSync fs (storePath st) \<longrightarrow> load parse fs st = Inr st) \<and>
   (\<not> existsSync fs p \<longrightarrow>
      load parse fs (new_store p) = Inr (new_store p) \<and> query (new_store p) q k = Inr []) \<and>
   (existsSync fs (storePath st) \<and>
    (readFile fs (storePath st) = Inl e \<or>
     (readFile fs (storePath st) = Inr content \<and> parse content = Inl e)) \<longrightarrow>
      load parse fs st = Inr (st\<lparr>vectors := []\<rparr>) \<and> query (st\<lparr>vectors := []\<rparr>) q k = Inr [])"
  by (auto simp: load_def load_try_def new_store_def query_def split: sum.splits)

theorem load_never_throws_witness:
  "existsSync (fmupd ''vectors.json'' (File ''{bad'') fmempty) ''vectors.json'' \<and>
   readFile (fmupd ''vectors.json'' (File ''{bad'') fmempty) ''vectors.json'' = Inr ''{bad'' \<and>
   load (\<lambda>s. if s = ''[]'' then Inr [] else Inl SyntaxError)
        (fmupd ''vectors.json'' (File ''{bad'') fmempty)
        \<lparr>vectors = [\<lparr>ve_id = ''a'', ve_embedding = [1, 0],
                      ve_metadata = \<lparr>md_filePath = ''a'', md_folderPath = ''x'', md_createdAt = ''1''\<rparr>\<rparr>],
          storePath = ''vectors.json''\<rparr>
     = Inr \<lparr>vectors = [], storePath = ''vectors.json''\<rparr> \<and>
   query \<lparr>vectors = [], storePath = ''vectors.json''\<rparr> [1, 0] 5 = Inr []"
  using load_never_throws
    [of "\<lambda>s. if s = ''[]'' then Inr [] else Inl SyntaxError"
        "fmupd ''vectors.json'' (File ''{bad'') fmempty"
        "\<lparr>vectors = [\<lparr>ve_id = ''a'', ve_embedding = [1, 0],
                      ve_metadata = \<lparr>md_filePath = ''a'', md_folderPath = ''x'', md_createdAt = ''1''\<rparr>\<rparr>],
          storePath = ''vectors.json''\<rparr>"
        "''other.json''" "[1, 0]" 5 SyntaxError "''{bad''"]
  by (simp add: existsSync_def readFile_def)

subsection \<open>Saving the snapshot\<close>

text \<open>
  C2 (as amended). \<open>save\<close> serialises the entry list and writes it directly over the
  snapshot file at the store path, with no temporary file and no atomic replace: no other
  path of the file system is created or changed; a completed write leaves the
  serialisation there; a write cut off after \<open>n\<close> code units, whether the process dies or
  the write fails and the error is swallowed, leaves only the first \<open>n\<close> code units of the
  new serialisation in place of the previous snapshot; a write refused because a directory
  is at the store path is swallowed and leaves the file system as it was.
\<close>

theorem save_writes_in_place:
  "(p \<noteq> storePath st \<longrightarrow> fmlookup (save stringify fault fs st) p = fmlookup fs p) \<and>
   (fmlookup fs (storePath st) \<noteq> Some Dir \<longrightarrow>
      save stringify Completes fs st
        = fmupd (storePath st) (File (stringify (vectors st))) fs \<and>
      save stringify (Dies n) fs st
        = fmupd (storePath st) (File (take n (stringify (vectors st)))) fs \<and>
      save stringify (Fails e n) fs st
        = fmupd (storePath st) (File (take n (stringify (vectors st)))) fs) \<and>
   (fmlookup fs (storePath st) = Some Dir \<longrightarrow> save stringify fault fs st = fs)"
proof -
  have other: "p \<noteq> storePath st \<longrightarrow> fmlookup (save stringify fault fs st) p = fmlookup fs p"
    by (cases fault) (auto simp: save_def writeFile_def split: option.splits node.splits)
  have written: "fmlookup fs (storePath st) \<noteq> Some Dir \<longrightarrow>
      save stringify Completes fs st
        = fmupd (storePath st) (File (stringify (vectors st))) fs \<and>
      save stringify (Dies n) fs st
        = fmupd (storePath st) (File (take n (stringify (vectors st)))) fs \<and>
      save stringify (Fails e n) fs st
        = fmupd (storePath st) (File (take n (stringify (vectors st)))) fs"
    by (auto simp: save_def writeFile_def split: option.splits node.splits)
  have refused: "fmlookup fs (storePath st) = Some Dir \<longrightarrow> save stringify fault fs st = fs"
    by (simp add: save_def writeFile_def)
  from other written refused show ?thesis
    by blast
qed

theorem save_writes_in_place_witness:
  "fmlookup (save (\<lambda>vs. if vs = [] then ''[]'' else ''[..]'') (Fails EFBIG 1)
              (fmupd ''notes.md'' (File ''text'') (fmupd ''vectors.json'' (File ''[old]'') fmempty))
              \<lparr>vectors = [], storePath = ''vectors.json''\<rparr>) ''notes.md'' = Some (File ''text'') \<and>
   fmlookup (save (\<lambda>vs. if vs = [] then ''[]'' else ''[..]'') Completes
              (fmupd ''notes.md'' (File ''text'') (fmupd ''vectors.json'' (File ''[old]'') fmempty))
              \<lparr>vectors = [], storePath = ''vectors.json''\<rparr>) ''vectors.json'' = Some (File ''[]'') \<and>
   fmlookup (save (\<lambda>vs. if vs = [] then ''[]'' else ''[..]'') (Fails EFBIG 1)
              (fmupd ''notes.md'' (File ''text'') (fmupd ''vectors.json'' (File ''[old]'') fmempty))
              \<lparr>vectors = [], storePath = ''vectors.json''\<rparr>) ''vectors.json'' = Some (File ''['')"
  using save_writes_in_place
    [of "''notes.md''" "\<lparr>vectors = [], storePath = ''vectors.json''\<rparr>"
        "\<lambda>vs. if vs = [] then ''[]'' else ''[..]''" "Fails EFBIG 1"
        "fmupd ''notes.md'' (File ''text'') (fmupd ''vectors.json'' (File ''[old]'') fmempty)"
        1 EFBIG]
  by simp

text \<open>
  C2 as stated: a crash during the write leaves the previous snapshot intact. Here the
  write of the new snapshot \<open>[]\<close> dies after one code unit; the file that held \<open>[old]\<close>
  then holds \<open>[\<close>, and no temporary file exists beside it.
\<close>

theorem save_crash_counterexample:
  "fmlookup (save (\<lambda>vs. if vs = [] then ''[]'' else ''[..]'') (Dies 1)
              (fmupd ''vectors.json'' (File ''[old]'') fmempty)
              \<lparr>vectors = [], storePath = ''vectors.json''\<rparr>) ''vectors.json'' = Some (File ''['') \<and>
   fmdom' (save (\<lambda>vs. if vs = [] then ''[]'' else ''[..]'') (Dies 1)
              (fmupd ''vectors.json'' (File ''[old]'') fmempty)
              \<lparr>vectors = [], storePath = ''vectors.json''\<rparr>) = {''vectors.json''}"
  by (simp add: save_def writeFile_def)

subsection \<open>Moving a note\<close>

lemma find_free_free: "\<not> existsSync fs (find_free fs destFolder name ext destination counter)"
proof (induction fs destFolder name ext destination counter rule: find_free.induct)
  case (1 fs destFolder name ext destination counter)
  then show ?case
    by (subst find_free.simps) simp
qed

lemma find_free_first:
  "existsSync fs destination \<Longrightarrow>
   \<exists>n\<ge>counter. find_free fs destFolder name ext destination counter = candidate destFolder name ext n \<and>
      \<not> existsSync fs (candidate destFolder name ext n) \<and>
      (\<forall>m. counter \<le> m \<and> m < n \<longrightarrow> existsSync fs (candidate destFolder name ext m))"
proof (induction fs destFolder name ext destination counter rule: find_free.induct)
  case (1 fs destFolder name ext destination counter)
  let ?c = "candidate destFolder name ext"
  from "1.prems" have step:
    "find_free fs destFolder name ext destination counter =
     find_free fs destFolder name ext (?c counter) (counter + 1)"
    by (subst find_free.simps) simp
  show ?case
  proof (cases "existsSync fs (?c counter)")
    case True
    from "1.IH" [OF "1.prems" True] obtain n where n: "counter + 1 \<le> n"
      and eq: "find_free fs destFolder name ext (?c counter) (counter + 1) = ?c n"
      and free: "\<not> existsSync fs (?c n)"
      and taken: "\<forall>m. counter + 1 \<le> m \<and> m < n \<longrightarrow> existsSync fs (?c m)"
      by blast
    have "\<forall>m. counter \<le> m \<and> m < n \<longrightarrow> existsSync fs (?c m)"
    proof (intro allI impI)
      fix m assume m: "counter \<le> m \<and> m < n"
      show "existsSync fs (?c m)"
      proof (cases "m = counter")
        case True with \<open>existsSync fs (?c counter)\<close> show ?thesis by simp
      next
        case False with m taken show ?thesis by simp
      qed
    qed
    with n eq free step show ?thesis
      by (intro exI [of _ n]) simp
  next
    case False
    then have "find_free fs destFolder name ext (?c counter) (counter + 1) = ?c counter"
      by (subst find_free.simps) simp
    with False step show ?thesis
      by (intro exI [of _ counter]) auto
  qed
qed

lemma basename_split:
  assumes "extname p \<noteq> []"
  shows "\<exists>stem. stem \<noteq> [] \<and> basename p = stem @ extname p"
proof -
  let ?b = "basename p"
  let ?tw = "takeWhile (\<lambda>c. c \<noteq> CHR ''.'') (rev ?b)"
  from assms have dot: "CHR ''.'' \<in> set ?b" and len: "length (rev ?tw) + 1 \<noteq> length ?b"
    and ext: "extname p = CHR ''.'' # rev ?tw"
    by (auto simp: extname_def Let_def split: if_splits)
  let ?dw = "dropWhile (\<lambda>c. c \<noteq> CHR ''.'') (rev ?b)"
  from dot have ne: "?dw \<noteq> []"
    by (simp add: dropWhile_eq_Nil_conv)
  then obtain c rest where dw: "?dw = c # rest"
    by (cases ?dw) auto
  from hd_dropWhile [OF ne] dw have c: "c = CHR ''.''"
    by simp
  have "rev ?b = ?tw @ ?dw"
    by simp
  with dw c have r: "rev ?b = ?tw @ CHR ''.'' # rest"
    by simp
  then have "rev (rev ?b) = rev (?tw @ CHR ''.'' # rest)"
    by (simp only:)
  then have b: "?b = rev rest @ CHR ''.'' # rev ?tw"
    by simp
  from b have "length ?b = length rest + 1 + length (rev ?tw)"
    by (metis (no_types, lifting) add.assoc add.commute length_Cons length_append length_rev plus_1_eq_Suc)
  with len have "rev rest \<noteq> []"
    by auto
  with b ext show ?thesis by metis
qed

lemma basename_ext_extname: "basename_ext p (extname p) @ extname p = basename p"
proof (cases "extname p = []")
  case True
  then show ?thesis by (simp add: basename_ext_def)
next
  case False
  from basename_split [OF False] obtain stem where "stem \<noteq> []" and "basename p = stem @ extname p"
    by blast
  then show ?thesis
    by (simp add: basename_ext_def Let_def)
qed

lemma mkdir_dest:
  "(if \<not> existsSync fs (path_join w f) then mkdirSync fs (path_join w f) else Inr fs)
   = Inr (if existsSync fs (path_join w f) then fs else fmupd (path_join w f) Dir fs)"
  by (auto simp: mkdirSync_def existsSync_def path_join_def)

lemma renameSync_lookup:
  "renameSync fs a b = Inr fs' \<Longrightarrow>
   fmlookup fs' p = (if p = b then fmlookup fs a else if p = a then None else fmlookup fs p)"
  by (auto simp: renameSync_def split: option.splits node.splits)

lemma renameSync_fresh:
  "fmlookup fs a = Some n \<Longrightarrow> fmlookup fs b = None \<Longrightarrow>
   renameSync fs a b = Inr (fmupd b n (fmdrop a fs))"
  by (simp add: renameSync_def split: node.splits)

lemma moveNote_keeps:
  assumes "p \<noteq> sourcePath" and "existsSync fs p"
  shows "fmlookup (snd (moveNote workspace fs sourcePath folder)) p = fmlookup fs p"
proof -
  let ?D = "path_join workspace folder"
  let ?fs1 = "if existsSync fs ?D then fs else fmupd ?D Dir fs"
  let ?d0 = "path_join ?D (basename sourcePath)"
  let ?dest = "if existsSync ?fs1 ?d0
               then find_free ?fs1 ?D (basename_ext sourcePath (extname sourcePath))
                      (extname sourcePath) ?d0 1
               else ?d0"
  have p1: "fmlookup ?fs1 p = fmlookup fs p"
    using assms(2) by (auto simp: existsSync_def)
  have fresh: "\<not> existsSync ?fs1 ?dest"
    by (simp add: find_free_free)
  with p1 assms(2) have pd: "p \<noteq> ?dest"
    by (auto simp: existsSync_def)
  have mv: "moveNote workspace fs sourcePath folder =
        (case renameSync ?fs1 sourcePath ?dest of
           Inl e \<Rightarrow> (None, ?fs1)
         | Inr fs2 \<Rightarrow> (Some ?dest, fs2))"
    by (simp only: moveNote_def Let_def mkdir_dest sum.case)
  show ?thesis
  proof (cases "renameSync ?fs1 sourcePath ?dest")
    case (Inl e)
    with mv p1 show ?thesis by simp
  next
    case (Inr fs2)
    from renameSync_lookup [OF Inr, of p] pd assms(1) p1 have "fmlookup fs2 p = fmlookup fs p"
      by simp
    with mv Inr show ?thesis by simp
  qed
qed

lemma moveNote_first_free:
  assumes "existsSync fs sourcePath"
      and "existsSync fs (path_join (path_join workspace folder) (basename sourcePath))"
  shows "\<exists>n\<ge>1. \<exists>fs'.
           moveNote workspace fs sourcePath folder =
             (Some (candidate (path_join workspace folder)
                      (basename_ext sourcePath (extname sourcePath)) (extname sourcePath) n), fs') \<and>
           basename_ext sourcePath (extname sourcePath) @ extname sourcePath = basename sourcePath \<and>
           \<not> existsSync fs (candidate (path_join workspace folder)
                      (basename_ext sourcePath (extname sourcePath)) (extname sourcePath) n) \<and>
           (\<forall>m. 1 \<le> m \<and> m < n \<longrightarrow>
              existsSync fs (candidate (path_join workspace folder)
                      (basename_ext sourcePath (extname sourcePath)) (extname sourcePath) m)) \<and>
           fmlookup fs' (candidate (path_join workspace folder)
                      (basename_ext sourcePath (extname sourcePath)) (extname sourcePath) n)
             = fmlookup fs sourcePath \<and>
           (\<forall>p. p \<noteq> sourcePath \<and> existsSync fs p \<longrightarrow> fmlookup fs' p = fmlookup fs p)"
proof -
  let ?D = "path_join workspace folder"
  let ?name = "basename_ext sourcePath (extname sourcePath)"
  let ?ext = "extname sourcePath"
  let ?c = "candidate ?D ?name ?ext"
  let ?fs1 = "if existsSync fs ?D then fs else fmupd ?D Dir fs"
  let ?d0 = "path_join ?D (basename sourcePath)"
  have other: "\<And>p. p \<noteq> ?D \<Longrightarrow> fmlookup ?fs1 p = fmlookup fs p"
    by simp
  have cD: "\<And>m. ?c m \<noteq> ?D"
    by (simp add: candidate_def path_join_def)
  have ex1: "\<And>m. existsSync ?fs1 (?c m) = existsSync fs (?c m)"
    using other [OF cD] by (simp add: existsSync_def)
  have src1: "fmlookup ?fs1 sourcePath = fmlookup fs sourcePath"
    using assms(1) by (auto simp: existsSync_def)
  have clash1: "existsSync ?fs1 ?d0"
    using assms(2) by (auto simp: existsSync_def)
  from find_free_first [OF clash1, of 1 ?D ?name ?ext]
  obtain n where n: "1 \<le> n" and eq: "find_free ?fs1 ?D ?name ?ext ?d0 1 = ?c n"
    and free: "\<not> existsSync ?fs1 (?c n)"
    and taken: "\<forall>m. 1 \<le> m \<and> m < n \<longrightarrow> existsSync ?fs1 (?c m)"
    by blast
  from assms(1) obtain nd where nd: "fmlookup fs sourcePath = Some nd"
    by (auto simp: existsSync_def)
  from free have none: "fmlookup ?fs1 (?c n) = None"
    by (simp add: existsSync_def)
  have rn: "renameSync ?fs1 sourcePath (?c n) = Inr (fmupd (?c n) nd (fmdrop sourcePath ?fs1))"
    using src1 nd none by (intro renameSync_fresh) simp_all
  have mv: "moveNote workspace fs sourcePath folder =
        (Some (?c n), fmupd (?c n) nd (fmdrop sourcePath ?fs1))"
    using clash1 eq rn by (simp only: moveNote_def Let_def mkdir_dest sum.case if_True)
  have keeps: "\<forall>p. p \<noteq> sourcePath \<and> existsSync fs p \<longrightarrow>
                 fmlookup (fmupd (?c n) nd (fmdrop sourcePath ?fs1)) p = fmlookup fs p"
    using moveNote_keeps [of _ sourcePath fs workspace folder] mv by simp
  have moved: "fmlookup (fmupd (?c n) nd (fmdrop sourcePath ?fs1)) (?c n) = fmlookup fs sourcePath"
    using nd by simp
  from n mv free taken moved keeps show ?thesis
    unfolding ex1 by (intro exI [of _ n] conjI exI [of _ "fmupd (?c n) nd (fmdrop sourcePath ?fs1)"])
      (simp_all add: basename_ext_extname)
qed


text \<open>
  C6. When the destination folder already holds an entry with the note's file name,
  \<open>moveNote\<close> moves the note to \<^verbatim>\<open>stem_n.ext\<close>, where \<open>stem\<close> and \<open>ext\<close> split
  the file name at its extension and \<open>n\<close> is the first integer from 1 whose name is
  unused. In every case, every path other than the source that existed before the move
  holds afterwards what it held before: nothing is overwritten.
\<close>

theorem moveNote_suffix:
  "(existsSync fs sourcePath \<and>
    existsSync fs (path_join (path_join workspace folder) (basename sourcePath)) \<longrightarrow>
      (\<exists>n\<ge>1.
         fst (moveNote workspace fs sourcePath folder) =
           Some (path_join (path_join workspace folder)
                   (basename_ext sourcePath (extname sourcePath) @ ''_'' @ show_nat n
                    @ extname sourcePath)) \<and>
         basename_ext sourcePath (extname sourcePath) @ extname sourcePath = basename sourcePath \<and>
         \<not> existsSync fs (candidate (path_join workspace folder)
                      (basename_ext sourcePath (extname sourcePath)) (extname sourcePath) n) \<and>
         (\<forall>m. 1 \<le> m \<and> m < n \<longrightarrow>
            existsSync fs (candidate (path_join workspace folder)
                      (basename_ext sourcePath (extname sourcePath)) (extname sourcePath) m)) \<and>
         fmlookup (snd (moveNote workspace fs sourcePath folder))
             (candidate (path_join workspace folder)
                      (basename_ext sourcePath (extname sourcePath)) (extname sourcePath) n)
           = fmlookup fs sourcePath)) \<and>
   (\<forall>p. p \<noteq> sourcePath \<and> existsSync fs p \<longrightarrow>
      fmlookup (snd (moveNote workspace fs sourcePath folder)) p = fmlookup fs p)"
proof -
  have keeps: "\<forall>p. p \<noteq> sourcePath \<and> existsSync fs p \<longrightarrow>
      fmlookup (snd (moveNote workspace fs sourcePath folder)) p = fmlookup fs p"
    by (simp add: moveNote_keeps)
  have "(existsSync fs sourcePath \<and>
    existsSync fs (path_join (path_join workspace folder) (basename sourcePath)) \<longrightarrow>
      (\<exists>n\<ge>1.
         fst (moveNote workspace fs sourcePath folder) =
           Some (path_join (path_join workspace folder)
                   (basename_ext sourcePath (extname sourcePath) @ ''_'' @ show_nat n
                    @ extname sourcePath)) \<and>
         basename_ext sourcePath (extname sourcePath) @ extname sourcePath = basename sourcePath \<and>
         \<not> existsSync fs (candidate (path_join workspace folder)
                      (basename_ext sourcePath (extname sourcePath)) (extname sourcePath) n) \<and>
         (\<forall>m. 1 \<le> m \<and> m < n \<longrightarrow>
            existsSync fs (candidate (path_join workspace folder)
                      (basename_ext sourcePath (extname sourcePath)) (extname sourcePath) m)) \<and>
         fmlookup (snd (moveNote workspace fs sourcePath folder))
             (candidate (path_join workspace folder)
                      (basename_ext sourcePath (extname sourcePath)) (extname sourcePath) n)
           = fmlookup fs sourcePath))"
  proof (intro impI)
    assume h: "existsSync fs sourcePath \<and>
      existsSync fs (path_join (path_join workspace folder) (basename sourcePath))"
    from moveNote_first_free [of fs sourcePath workspace folder] h
    obtain n fs' where n: "1 \<le> n"
      and mv: "moveNote workspace fs sourcePath folder =
             (Some (candidate (path_join workspace folder)
                      (basename_ext sourcePath (extname sourcePath)) (extname sourcePath) n), fs')"
      and rest: "basename_ext sourcePath (extname sourcePath) @ extname sourcePath = basename sourcePath"
        "\<not> existsSync fs (candidate (path_join workspace folder)
                      (basename_ext sourcePath (extname sourcePath)) (extname sourcePath) n)"
        "\<forall>m. 1 \<le> m \<and> m < n \<longrightarrow>
              existsSync fs (candidate (path_join workspace folder)
                      (basename_ext sourcePath (extname sourcePath)) (extname sourcePath) m)"
        "fmlookup fs' (candidate (path_join workspace folder)
                      (basename_ext sourcePath (extname sourcePath)) (extname sourcePath) n)
             = fmlookup fs sourcePath"
      by blast
    show "\<exists>n\<ge>1.
         fst (moveNote workspace fs sourcePath folder) =
           Some (path_join (path_join workspace folder)
                   (basename_ext sourcePath (extname sourcePath) @ ''_'' @ show_nat n
                    @ extname sourcePath)) \<and>
         basename_ext sourcePath (extname sourcePath) @ extname sourcePath = basename sourcePath \<and>
         \<not> existsSync fs (candidate (path_join workspace folder)
                      (basename_ext sourcePath (extname sourcePath)) (extname sourcePath) n) \<and>
         (\<forall>m. 1 \<le> m \<and> m < n \<longrightarrow>
            existsSync fs (candidate (path_join workspace folder)
                      (basename_ext sourcePath (extname sourcePath)) (extname sourcePath) m)) \<and>
         fmlookup (snd (moveNote workspace fs sourcePath folder))
             (candidate (path_join workspace folder)
                      (basename_ext sourcePath (extname sourcePath)) (extname sourcePath) n)
           = fmlookup fs sourcePath"
      using n mv rest by (intro exI [of _ n]) (simp add: candidate_def)
  qed
  with keeps show ?thesis by blast
qed

theorem moveNote_suffix_witness:
  "fst (moveNote ''/ws'' two_notes ''/ws/inbox/a/note.md'' ''work'') = Some ''/ws/work/note.md'' \<and>
   existsSync (snd (moveNote ''/ws'' two_notes ''/ws/inbox/a/note.md'' ''work''))
     (path_join (path_join ''/ws'' ''work'') (basename ''/ws/inbox/b/note.md'')) \<and>
   fst (moveNote ''/ws'' (snd (moveNote ''/ws'' two_notes ''/ws/inbox/a/note.md'' ''work''))
          ''/ws/inbox/b/note.md'' ''work'') = Some ''/ws/work/note_1.md'' \<and>
   map (fmlookup (snd (moveNote ''/ws''
                         (snd (moveNote ''/ws'' two_notes ''/ws/inbox/a/note.md'' ''work''))
                         ''/ws/inbox/b/note.md'' ''work'')))
       [''/ws/work/note.md'', ''/ws/work/note_1.md'', ''/ws/inbox/a/note.md'', ''/ws/inbox/b/note.md'']
     = [Some (File ''first''), Some (File ''second''), None, None]"
  using moveNote_suffix [of "snd (moveNote ''/ws'' two_notes ''/ws/inbox/a/note.md'' ''work'')"
          "''/ws/inbox/b/note.md''" "''/ws''" "''work''"]
  by (simp add: two_notes_def Let_def moveNote_def path_join_def existsSync_def mkdirSync_def
        basename_def renameSync_def find_free.simps candidate_def extname_def basename_ext_def
        show_nat.simps digit_char_def)

subsection \<open>Parsing the provider reply\<close>

lemma confidence_not_folder: "startsWith t ''CONFIDENCE:'' \<Longrightarrow> \<not> startsWith t ''FOLDER:''"
  by (cases t) (auto simp: startsWith_def)

lemma parse_lines_confidence:
  "sg_confidence (parse_lines ls sg) =
     (if filter (\<lambda>t. startsWith t ''CONFIDENCE:'') (map trim ls) = [] then sg_confidence sg
      else js_div100 (parseFloat (confStr
             (last (filter (\<lambda>t. startsWith t ''CONFIDENCE:'') (map trim ls))))))"
proof (induction ls arbitrary: sg)
  case Nil
  show ?case by simp
next
  case (Cons l ls)
  show ?case
  proof (cases "startsWith (trim l) ''CONFIDENCE:''")
    case True
    then show ?thesis
      by (simp add: Cons.IH Let_def confidence_not_folder)
  next
    case False
    then show ?thesis
      by (simp add: Cons.IH Let_def)
  qed
qed

lemma in_unit_div100: "in_unit (js_div100 x) \<longleftrightarrow> (\<exists>p. x = Fin p \<and> 0 \<le> p \<and> p \<le> 100)"
  by (cases x) auto

text \<open>
  C5 (as amended). \<open>parseLLMResponse\<close> yields confidence 0 when the reply has no
  \<^verbatim>\<open>CONFIDENCE:\<close> line, and otherwise \<open>parseFloat\<close> of the text of the last such line
  divided by 100. This lies in \<open>[0,1]\<close> exactly when there is no such line or the parsed
  text is a number between 0 and 100; nothing clamps or rejects other values.
\<close>

theorem parsed_confidence_range:
  "(confidence_lines r = [] \<longrightarrow> sg_confidence (parseLLMResponse r) = Fin 0) \<and>
   (confidence_lines r \<noteq> [] \<longrightarrow>
      sg_confidence (parseLLMResponse r) =
        js_div100 (parseFloat (confStr (last (confidence_lines r))))) \<and>
   (in_unit (sg_confidence (parseLLMResponse r)) \<longleftrightarrow>
      confidence_lines r = [] \<or>
      (\<exists>p. parseFloat (confStr (last (confidence_lines r))) = Fin p \<and> 0 \<le> p \<and> p \<le> 100))"
  by (simp add: parseLLMResponse_def parse_lines_confidence confidence_lines_def in_unit_div100)

theorem parsed_confidence_range_witness:
  "confidence_lines (''FOLDER: work'' @ [CHR 0x0A] @ ''CONFIDENCE: 85%'') = [''CONFIDENCE: 85%''] \<and>
   sg_confidence (parseLLMResponse (''FOLDER: work'' @ [CHR 0x0A] @ ''CONFIDENCE: 85%'')) = Fin (17 / 20) \<and>
   in_unit (sg_confidence (parseLLMResponse (''FOLDER: work'' @ [CHR 0x0A] @ ''CONFIDENCE: 85%'')))"
  using parsed_confidence_range [of "''FOLDER: work'' @ [CHR 0x0A] @ ''CONFIDENCE: 85%''"]
  by (simp add: confidence_lines_def parseLLMResponse_def trim_def is_space_def startsWith_def
        confStr_def parseFloat_def trimStart_def unsigned_literal_def is_digit_def digits_val_def
        pow10_def exponent_part_def)

text \<open>
  C5 as stated promises a confidence in \<open>[0,1]\<close> for every reply text. A reply with
  \<^verbatim>\<open>CONFIDENCE: 150\<close> is parsed to the confidence 1.5.
\<close>

theorem parsed_confidence_counterexample:
  "sg_confidence (parseLLMResponse (''FOLDER: work'' @ [CHR 0x0A] @ ''CONFIDENCE: 150'')) = Fin (3 / 2) \<and>
   \<not> in_unit (sg_confidence (parseLLMResponse (''FOLDER: work'' @ [CHR 0x0A] @ ''CONFIDENCE: 150'')))"
  by (simp add: parseLLMResponse_def trim_def is_space_def startsWith_def
        confStr_def parseFloat_def trimStart_def unsigned_literal_def is_digit_def digits_val_def
        pow10_def exponent_part_def)

subsection \<open>The fallback suggestion\<close>

lemma foldl_pick_first_max:
  assumes "a \<in> set pre"
      and "\<forall>y\<in>set pre. occurrences arr y \<le> occurrences arr a"
      and "\<forall>y\<in>set (takeWhile (\<lambda>x. x \<noteq> a) pre). occurrences arr y < occurrences arr a"
  shows "foldl (pick arr) a rest \<in> set (pre @ rest) \<and>
         (\<forall>y\<in>set (pre @ rest). occurrences arr y \<le> occurrences arr (foldl (pick arr) a rest)) \<and>
         (\<forall>y\<in>set (takeWhile (\<lambda>x. x \<noteq> foldl (pick arr) a rest) (pre @ rest)).
            occurrences arr y < occurrences arr (foldl (pick arr) a rest))"
  using assms
proof (induction rest arbitrary: a pre)
  case Nil
  then show ?case by simp
next
  case (Cons b rest)
  let ?a' = "pick arr a b"
  have "?a' \<in> set (pre @ [b]) \<and>
        (\<forall>y\<in>set (pre @ [b]). occurrences arr y \<le> occurrences arr ?a') \<and>
        (\<forall>y\<in>set (takeWhile (\<lambda>x. x \<noteq> ?a') (pre @ [b])). occurrences arr y < occurrences arr ?a')"
  proof (cases "occurrences arr b \<le> occurrences arr a")
    case True
    then have a': "?a' = a" by (simp add: pick_def)
    from Cons.prems(1) have "takeWhile (\<lambda>x. x \<noteq> a) (pre @ [b]) = takeWhile (\<lambda>x. x \<noteq> a) pre"
      by (simp add: takeWhile_append1)
    with a' True Cons.prems show ?thesis by auto
  next
    case False
    then have a': "?a' = b" by (simp add: pick_def)
    from False Cons.prems(2) have nb: "b \<notin> set pre" by auto
    then have "takeWhile (\<lambda>x. x \<noteq> b) (pre @ [b]) = pre"
      by (induction pre) auto
    with a' False Cons.prems(2) show ?thesis by fastforce
  qed
  from Cons.IH [of ?a' "pre @ [b]"] this show ?case
    by simp
qed

lemma occurrences_count_list: "occurrences arr a = count_list arr a"
  by (induction arr) (simp_all add: occurrences_def)

text \<open>
  C3. When the provider call fails and there are neighbours, the fallback folder is one of
  the neighbours' folders, no folder occurs more often among the neighbours' folders
  (counted with \<open>count_list\<close>, the number of positions of the list that hold the folder),
  and every folder that appears before its first occurrence in the ranking occurs
  strictly less often, so that ties go to the first encountered; the confidence is exactly
  0.5. With no neighbours the fallback is the empty folder with confidence 0, and
  \<open>sortNote\<close> ends with \<^verbatim>\<open>No suggestion\<close> leaving everything as it was.
\<close>

theorem fallback_plurality:
  "(similarNotes \<noteq> [] \<longrightarrow>
      sg_folder (getSuggestion None similarNotes) \<in> set (map sn_folderPath similarNotes) \<and>
      (\<forall>f\<in>set (map sn_folderPath similarNotes).
         count_list (map sn_folderPath similarNotes) f
           \<le> count_list (map sn_folderPath similarNotes) (sg_folder (getSuggestion None similarNotes))) \<and>
      (\<forall>f\<in>set (takeWhile (\<lambda>x. x \<noteq> sg_folder (getSuggestion None similarNotes))
                   (map sn_folderPath similarNotes)).
         count_list (map sn_folderPath similarNotes) f
           < count_list (map sn_folderPath similarNotes) (sg_folder (getSuggestion None similarNotes))) \<and>
      sg_confidence (getSuggestion None similarNotes) = Fin (1 / 2)) \<and>
   getSuggestion None [] = \<lparr>sg_folder = '''', sg_confidence = Fin 0, sg_reason = ''''\<rparr> \<and>
   (readFile (w_fs w) notePath = Inr content \<and> \<not> length (trim content) < 10 \<and>
    findSimilarNotes e w content (topKSimilar e) = Inr [] \<longrightarrow>
      sortNote e ask None w notePath auto dryRun = Inr (failure ''No suggestion'', [Log NoFolder], w))"
proof -
  have fb: "similarNotes \<noteq> [] \<longrightarrow>
      sg_folder (getSuggestion None similarNotes) \<in> set (map sn_folderPath similarNotes) \<and>
      (\<forall>f\<in>set (map sn_folderPath similarNotes).
         count_list (map sn_folderPath similarNotes) f
           \<le> count_list (map sn_folderPath similarNotes) (sg_folder (getSuggestion None similarNotes))) \<and>
      (\<forall>f\<in>set (takeWhile (\<lambda>x. x \<noteq> sg_folder (getSuggestion None similarNotes))
                   (map sn_folderPath similarNotes)).
         count_list (map sn_folderPath similarNotes) f
           < count_list (map sn_folderPath similarNotes) (sg_folder (getSuggestion None similarNotes))) \<and>
      sg_confidence (getSuggestion None similarNotes) = Fin (1 / 2)"
  proof
    assume "similarNotes \<noteq> []"
    then obtain a rest where fs: "map sn_folderPath similarNotes = a # rest"
      by (cases similarNotes) auto
    have start: "a \<in> set [a]"
      "\<forall>y\<in>set [a]. occurrences (a # rest) y \<le> occurrences (a # rest) a"
      "\<forall>y\<in>set (takeWhile (\<lambda>x. x \<noteq> a) [a]). occurrences (a # rest) y < occurrences (a # rest) a"
      by simp_all
    have folder: "sg_folder (getSuggestion None similarNotes) = foldl (pick (a # rest)) a rest"
      and conf: "sg_confidence (getSuggestion None similarNotes) = Fin (1 / 2)"
      using fs by (simp_all add: getSuggestion_def)
    from foldl_pick_first_max [OF start, of rest]
    have "foldl (pick (a # rest)) a rest \<in> set (a # rest) \<and>
          (\<forall>y\<in>set (a # rest).
             count_list (a # rest) y \<le> count_list (a # rest) (foldl (pick (a # rest)) a rest)) \<and>
          (\<forall>y\<in>set (takeWhile (\<lambda>x. x \<noteq> foldl (pick (a # rest)) a rest) (a # rest)).
             count_list (a # rest) y < count_list (a # rest) (foldl (pick (a # rest)) a rest))"
      unfolding occurrences_count_list append_Cons append_Nil by blast
    with conf show "sg_folder (getSuggestion None similarNotes) \<in> set (map sn_folderPath similarNotes) \<and>
      (\<forall>f\<in>set (map sn_folderPath similarNotes).
         count_list (map sn_folderPath similarNotes) f
           \<le> count_list (map sn_folderPath similarNotes) (sg_folder (getSuggestion None similarNotes))) \<and>
      (\<forall>f\<in>set (takeWhile (\<lambda>x. x \<noteq> sg_folder (getSuggestion None similarNotes))
                   (map sn_folderPath similarNotes)).
         count_list (map sn_folderPath similarNotes) f
           < count_list (map sn_folderPath similarNotes) (sg_folder (getSuggestion None similarNotes))) \<and>
      sg_confidence (getSuggestion None similarNotes) = Fin (1 / 2)"
      unfolding folder fs by blast
  qed
  have emp: "getSuggestion None [] = \<lparr>sg_folder = '''', sg_confidence = Fin 0, sg_reason = ''''\<rparr>"
    by (simp add: getSuggestion_def)
  have nos: "readFile (w_fs w) notePath = Inr content \<and> \<not> length (trim content) < 10 \<and>
    findSimilarNotes e w content (topKSimilar e) = Inr [] \<longrightarrow>
      sortNote e ask None w notePath auto dryRun = Inr (failure ''No suggestion'', [Log NoFolder], w)"
    by (simp add: sortNote_def emp)
  from fb emp nos show ?thesis by blast
qed

theorem fallback_plurality_witness:
  "map sn_folderPath late_neighbours = [''ideas'', ''work/meetings'', ''work/meetings''] \<and>
   count_list (map sn_folderPath late_neighbours) ''work/meetings'' = 2 \<and>
   count_list (map sn_folderPath late_neighbours) ''ideas'' = 1 \<and>
   sg_folder (getSuggestion None late_neighbours) = ''work/meetings'' \<and>
   sg_confidence (getSuggestion None late_neighbours) = Fin (1 / 2) \<and>
   map sn_folderPath example_neighbours = [''work/meetings'', ''work/meetings'', ''ideas''] \<and>
   sg_folder (getSuggestion None example_neighbours) = ''work/meetings'' \<and>
   sg_confidence (getSuggestion None example_neighbours) = Fin (1 / 2) \<and>
   map sn_folderPath tied_neighbours = [''ideas'', ''work/meetings''] \<and>
   sg_folder (getSuggestion None tied_neighbours) = ''ideas'' \<and>
   findSimilarNotes example_env example_world ''Agenda for the planning meeting'' 5 = Inr [] \<and>
   sortNote example_env (\<lambda>p. Cancelled) None example_world ''/ws/inbox/note.md'' True False
     = Inr (failure ''No suggestion'', [Log NoFolder], example_world)"
  using fallback_plurality [of late_neighbours example_world "''/ws/inbox/note.md''"
          "''Agenda for the planning meeting''" example_env "\<lambda>p. Cancelled" True False]
  by (simp add: late_neighbours_def example_neighbours_def tied_neighbours_def getSuggestion_def
        pick_def occurrences_def example_env_def example_world_def readFile_def
        findSimilarNotes_def new_store_def query_def trim_def is_space_def)

subsection \<open>Undoing the last sort\<close>

lemma getLastSort_None: "getLastSort rows = None \<longleftrightarrow> rows = []"
  by (induction rows) (auto split: option.splits)

lemma getLastSort_max:
  "getLastSort rows = Some m \<Longrightarrow> m \<in> set rows \<and> (\<forall>r\<in>set rows. sh_id r \<le> sh_id m)"
proof (induction rows arbitrary: m)
  case Nil
  then show ?case by simp
next
  case (Cons r rows)
  show ?case
  proof (cases "getLastSort rows")
    case None
    with Cons.prems show ?thesis by (simp add: getLastSort_None)
  next
    case (Some m')
    from Cons.IH [OF Some] Some Cons.prems show ?thesis
      by (auto split: if_splits)
  qed
qed

text \<open>
  C7. \<open>undoLastSort\<close> returns failure and leaves the whole state, file system included,
  unchanged when the history is empty, and also when the file at the destination path of
  the most recent history entry (the row with the greatest id) no longer exists.
\<close>

theorem undo_without_effect:
  "(w_history w = [] \<longrightarrow> undoLastSort w = (False, w)) \<and>
   (getLastSort (w_history w) = Some lastSort \<and> \<not> existsSync (w_fs w) (sh_toPath lastSort) \<longrightarrow>
      undoLastSort w = (False, w)) \<and>
   (getLastSort (w_history w) = Some lastSort \<longrightarrow>
      lastSort \<in> set (w_history w) \<and> (\<forall>r\<in>set (w_history w). sh_id r \<le> sh_id lastSort))"
  using getLastSort_max [of "w_history w" lastSort]
  by (auto simp: undoLastSort_def toPath_def)

theorem undo_without_effect_witness:
  "w_history example_world = [] \<and>
   undoLastSort example_world = (False, example_world) \<and>
   getLastSort (w_history stale_world)
     = Some \<lparr>sh_id = 1, sh_noteId = ''/ws/inbox/old.md'', sh_fromPath = ''/ws/inbox/old.md'',
              sh_toPath = ''/ws/work/old.md'', sh_confidence = Fin (9 / 10)\<rparr> \<and>
   \<not> existsSync (w_fs stale_world) ''/ws/work/old.md'' \<and>
   undoLastSort stale_world = (False, stale_world)"
  using undo_without_effect [of example_world lastSort]
        undo_without_effect [of stale_world
          "\<lparr>sh_id = 1, sh_noteId = ''/ws/inbox/old.md'', sh_fromPath = ''/ws/inbox/old.md'',
            sh_toPath = ''/ws/work/old.md'', sh_confidence = Fin (9 / 10)\<rparr>"]
  by (simp add: stale_world_def example_world_def existsSync_def)

subsection \<open>The confidence policy of \<open>sortNote\<close>\<close>

text \<open>The definitions unfolded when \<open>sortNote\<close> is run on the example inputs.\<close>

lemmas eval_reply = parseLLMResponse_def trim_def is_space_def startsWith_def
        confStr_def parseFloat_def trimStart_def unsigned_literal_def is_digit_def digits_val_def
        pow10_def exponent_part_def

lemmas eval_sorter = example_env_def example_world_def sortNote_def readFile_def findSimilarNotes_def new_store_def
   query_def getSuggestion_def confidence_policy_def Let_def moveNote_def path_join_def existsSync_def mkdirSync_def basename_def
      renameSync_def record_move_def recordSort_def addNote_def add_def save_def writeFile_def result_of_def events_of_def files_of_def failure_def

lemma events_of_Inr: "events_of (Inr x) = fst (snd x)"
  by (simp add: events_of_def split: prod.splits)

lemma result_of_Inr: "result_of (Inr x) = Some (fst x)"
  by (simp add: result_of_def split: prod.splits)

lemma sortNote_reaches_policy:
  assumes "readFile (w_fs w) notePath = Inr content"
      and "\<not> length (trim content) < 10"
      and "findSimilarNotes e w content (topKSimilar e) = Inr similarNotes"
      and "sg_folder (getSuggestion reply similarNotes) \<noteq> []"
  shows "sortNote e ask reply w notePath auto dryRun =
         Inr (confidence_policy e ask w notePath auto dryRun (getSuggestion reply similarNotes))"
  using assms by (simp add: sortNote_def)

lemma addNote_threshold:
  "addNote (e\<lparr>confidenceThreshold := t\<rparr>) w filePath content folderPath =
   addNote e w filePath content folderPath"
  by (simp add: addNote_def split: option.splits)

lemma record_move_threshold:
  "record_move (e\<lparr>confidenceThreshold := t\<rparr>) w notePath destination suggestion =
   record_move e w notePath destination suggestion"
  by (simp add: record_move_def addNote_threshold cong: sum.case_cong)

lemma policy_auto_low:
  assumes "js_lt (sg_confidence sg) (confidenceThreshold e)"
  shows "confidence_policy e ask w notePath True dryRun sg =
         (case confidence_policy (e\<lparr>confidenceThreshold := NaN\<rparr>) ask w notePath True dryRun sg of
            (r, evs, w') \<Rightarrow> (r, Log LowConfidence # evs, w'))"
  using assms
  by (auto simp: confidence_policy_def Let_def record_move_threshold split: prod.splits option.splits)

lemma js_lt_NaN: "\<not> js_lt x NaN" "\<not> js_lt NaN x"
  by (cases x; simp)+

lemma policy_interactive_low:
  assumes "js_lt (sg_confidence sg) (confidenceThreshold e)"
  shows "(ask ProceedAnyway \<noteq> Confirmed True \<longrightarrow>
            confidence_policy e ask w notePath False dryRun sg =
              (failure ''User cancelled'', [Log LowConfidence, Ask ProceedAnyway], w))"
    and "take 2 (fst (snd (confidence_policy e ask w notePath False dryRun sg))) = [Log LowConfidence, Ask ProceedAnyway]"
  using assms
  by (auto simp: confidence_policy_def Let_def split: prod.splits option.splits)

lemma policy_auto_moves:
  assumes "moveNote (workspacePath e) (w_fs w) notePath (sg_folder sg) = (Some d, fs')"
  shows "fst (confidence_policy e ask w notePath True False sg) =
           \<lparr>sr_success = True, sr_from = Some notePath, sr_to = Some d,
            sr_confidence = Some (sg_confidence sg), sr_error = None\<rparr>"
  using assms
  by (auto simp: confidence_policy_def Let_def split: prod.splits option.splits)

lemma policy_auto_never_asks:
  "Ask p \<notin> set (fst (snd (confidence_policy e ask w notePath True dryRun sg)))"
  by (auto simp: confidence_policy_def Let_def record_move_def split: prod.splits option.splits sum.splits)

text \<open>
  C1 (as amended). For a note that reaches the confidence policy with a suggestion whose
  confidence is strictly below the threshold: in interactive mode \<open>sortNote\<close> warns and
  asks whether to proceed, and unless the answer is an explicit yes it returns
  \<^verbatim>\<open>User cancelled\<close> with nothing changed. In automatic mode nothing is asked and the
  note is not held back: \<open>sortNote\<close> behaves exactly as if the threshold test had passed,
  apart from the warning it prints first, and when \<open>moveNote\<close> succeeds the note is moved
  and reported as sorted. There is no forced-override parameter.
\<close>

theorem low_confidence_policy:
  assumes "readFile (w_fs w) notePath = Inr content"
      and "\<not> length (trim content) < 10"
      and "findSimilarNotes e w content (topKSimilar e) = Inr similarNotes"
      and "sg_folder (getSuggestion reply similarNotes) \<noteq> []"
      and "js_lt (sg_confidence (getSuggestion reply similarNotes)) (confidenceThreshold e)"
  shows "(ask ProceedAnyway \<noteq> Confirmed True \<longrightarrow>
            sortNote e ask reply w notePath False dryRun =
              Inr (failure ''User cancelled'', [Log LowConfidence, Ask ProceedAnyway], w)) \<and>
         take 2 (events_of (sortNote e ask reply w notePath False dryRun))
           = [Log LowConfidence, Ask ProceedAnyway] \<and>
         Ask ProceedAnyway \<notin> set (events_of (sortNote e ask reply w notePath True dryRun)) \<and>
         sortNote e ask reply w notePath True dryRun =
           (case sortNote (e\<lparr>confidenceThreshold := NaN\<rparr>) ask reply w notePath True dryRun of
              Inl err \<Rightarrow> Inl err
            | Inr (r, evs, w') \<Rightarrow> Inr (r, Log LowConfidence # evs, w')) \<and>
         (moveNote (workspacePath e) (w_fs w) notePath (sg_folder (getSuggestion reply similarNotes))
            = (Some d, fs') \<longrightarrow>
          result_of (sortNote e ask reply w notePath True False) =
            Some \<lparr>sr_success = True, sr_from = Some notePath, sr_to = Some d,
                  sr_confidence = Some (sg_confidence (getSuggestion reply similarNotes)),
                  sr_error = None\<rparr>)"
proof -
  let ?sg = "getSuggestion reply similarNotes"
  note reach = sortNote_reaches_policy [OF assms(1-4)]
  have sims': "findSimilarNotes (e\<lparr>confidenceThreshold := NaN\<rparr>) w content
                 (topKSimilar (e\<lparr>confidenceThreshold := NaN\<rparr>)) = Inr similarNotes"
    using assms(3) by (simp add: findSimilarNotes_def)
  note reach' = sortNote_reaches_policy [OF assms(1,2) sims' assms(4)]
  have a: "ask ProceedAnyway \<noteq> Confirmed True \<longrightarrow>
            sortNote e ask reply w notePath False dryRun =
              Inr (failure ''User cancelled'', [Log LowConfidence, Ask ProceedAnyway], w)"
    using policy_interactive_low(1) [OF assms(5)] by (simp add: reach)
  have b: "take 2 (events_of (sortNote e ask reply w notePath False dryRun))
           = [Log LowConfidence, Ask ProceedAnyway]"
    using policy_interactive_low(2) [OF assms(5), of ask w notePath dryRun]
    by (simp add: reach events_of_Inr)
  have c: "Ask ProceedAnyway \<notin> set (events_of (sortNote e ask reply w notePath True dryRun))"
    using policy_auto_never_asks [of ProceedAnyway e ask w notePath dryRun ?sg]
    by (simp add: reach events_of_Inr)
  have d: "sortNote e ask reply w notePath True dryRun =
           (case sortNote (e\<lparr>confidenceThreshold := NaN\<rparr>) ask reply w notePath True dryRun of
              Inl err \<Rightarrow> Inl err
            | Inr (r, evs, w') \<Rightarrow> Inr (r, Log LowConfidence # evs, w'))"
    by (simp add: reach reach' policy_auto_low [OF assms(5)] split: prod.splits)
  have e: "moveNote (workspacePath e) (w_fs w) notePath (sg_folder ?sg) = (Some d, fs') \<longrightarrow>
          result_of (sortNote e ask reply w notePath True False) =
            Some \<lparr>sr_success = True, sr_from = Some notePath, sr_to = Some d,
                  sr_confidence = Some (sg_confidence ?sg), sr_error = None\<rparr>"
    using policy_auto_moves [of e w notePath ?sg d fs' ask]
    by (simp add: reach result_of_Inr)
  from a b c d e show ?thesis by blast
qed

theorem low_confidence_policy_witness:
  "sg_confidence (getSuggestion (Some reply_65) []) = Fin (13 / 20) \<and>
   js_lt (Fin (13 / 20)) (confidenceThreshold example_env) \<and>
   sortNote example_env (\<lambda>p. Cancelled) (Some reply_65) example_world ''/ws/inbox/note.md'' False False
     = Inr (failure ''User cancelled'', [Log LowConfidence, Ask ProceedAnyway], example_world)"
  using low_confidence_policy [of example_world "''/ws/inbox/note.md''" "''Agenda for the planning meeting''"
      example_env "[]" "Some reply_65" "\<lambda>p. Cancelled" False]
  by (simp add: reply_65_def eval_reply example_env_def example_world_def readFile_def findSimilarNotes_def
       new_store_def query_def getSuggestion_def)

text \<open>
  C1 as stated: in automatic mode a note below the threshold is left unmoved and reported
  as below-threshold unless an override was requested. With threshold 0.7 and confidence
  0.65, automatic mode moves the note and reports success.
\<close>

theorem automatic_low_confidence_counterexample:
  "result_of (sortNote example_env (\<lambda>p. Cancelled) (Some reply_65) example_world
                ''/ws/inbox/note.md'' True False)
     = Some \<lparr>sr_success = True, sr_from = Some ''/ws/inbox/note.md'',
             sr_to = Some ''/ws/work/note.md'', sr_confidence = Some (Fin (13 / 20)),
             sr_error = None\<rparr> \<and>
   js_lt (Fin (13 / 20)) (confidenceThreshold example_env) \<and>
   fmlookup (files_of (sortNote example_env (\<lambda>p. Cancelled) (Some reply_65) example_world
                ''/ws/inbox/note.md'' True False)) ''/ws/inbox/note.md'' = None \<and>
   fmlookup (files_of (sortNote example_env (\<lambda>p. Cancelled) (Some reply_65) example_world
                ''/ws/inbox/note.md'' True False)) ''/ws/work/note.md''
     = Some (File ''Agenda for the planning meeting'')"
  by (simp add: reply_65_def eval_reply eval_sorter)

subsection \<open>A reply without a numeric confidence\<close>

text \<open>
  C8. For the reply \<^verbatim>\<open>FOLDER: work\<close>, \<^verbatim>\<open>CONFIDENCE: high\<close> the parsed confidence is
  \<^verbatim>\<open>NaN\<close>. No number is greater than \<^verbatim>\<open>NaN\<close>, so the low-confidence branch is not
  taken: in automatic mode \<open>sortNote\<close> prints no warning and moves the note.
\<close>

theorem nan_confidence_moves:
  "sg_folder (parseLLMResponse reply_high) = ''work'' \<and>
   sg_confidence (parseLLMResponse reply_high) = NaN \<and>
   \<not> js_lt NaN t \<and>
   result_of (sortNote example_env (\<lambda>p. Cancelled) (Some reply_high) example_world
                ''/ws/inbox/note.md'' True False)
     = Some \<lparr>sr_success = True, sr_from = Some ''/ws/inbox/note.md'',
             sr_to = Some ''/ws/work/note.md'', sr_confidence = Some NaN, sr_error = None\<rparr> \<and>
   events_of (sortNote example_env (\<lambda>p. Cancelled) (Some reply_high) example_world
                ''/ws/inbox/note.md'' True False) = [Log Suggestion, Log MovedOk] \<and>
   fmlookup (files_of (sortNote example_env (\<lambda>p. Cancelled) (Some reply_high) example_world
                ''/ws/inbox/note.md'' True False)) ''/ws/inbox/note.md'' = None \<and>
   fmlookup (files_of (sortNote example_env (\<lambda>p. Cancelled) (Some reply_high) example_world
                ''/ws/inbox/note.md'' True False)) ''/ws/work/note.md''
     = Some (File ''Agenda for the planning meeting'')"
  by (simp add: reply_high_def eval_reply eval_sorter js_lt_NaN)


end
